theory Spec2Isabelle
  imports Main "HOL-Library.AList" "HOL-Library.Sublist"
begin

section \<open>Python values and the operations the handlers apply to them\<close>

text \<open>
  The handlers work on untyped data: the response of the agent runtime is a tree of
  dictionaries, lists, strings and byte strings, and a chunk may also be an object
  whose payload is read through attributes. A value is one of these. A dictionary is
  an association list in insertion order (keys are strings; the first entry of a key
  is the one a lookup sees). A \<open>str\<close> is held as its UTF-8 encoding, so that
  concatenation is \<open>@\<close> and decoding a well-formed byte string is the identity;
  \<open>bytes\<close> are the raw bytes. \<open>PObj\<close> is an object with the given data attributes.
  (Values of other types, such as floats, have no keys, elements or attributes and
  behave in the operations below as \<open>PInt\<close> does.)
\<close>

datatype pyval =
    PNone
  | PBool bool
  | PInt int
  | PStr string
  | PBytes string
  | PList "pyval list"
  | PDict "(string \<times> pyval) list"
  | PObj "(string \<times> pyval) list"

type_synonym pydict = "(string \<times> pyval) list"

text \<open>
  The exceptions the operations raise. Each carries what its message is built from:
  the operation and the operand for a \<open>TypeError\<close>, the object and the attribute for
  an \<open>AttributeError\<close>, the key for a \<open>KeyError\<close>, the bytes for a
  \<open>UnicodeDecodeError\<close>. All four are subclasses of \<open>Exception\<close>.
\<close>

datatype pyerr =
    TypeError string pyval
  | AttributeError pyval string
  | KeyError string
  | UnicodeDecodeError string

type_synonym 'a py = "pyerr + 'a"

definition pybind :: "'a py \<Rightarrow> ('a \<Rightarrow> 'b py) \<Rightarrow> 'b py" where
  "pybind m f = (case m of Inl e \<Rightarrow> Inl e | Inr x \<Rightarrow> f x)"

text \<open>A \<open>for\<close> loop over a list that threads a state and stops at the first exception.\<close>

fun for_each :: "('s \<Rightarrow> 'a \<Rightarrow> 's py) \<Rightarrow> 's \<Rightarrow> 'a list \<Rightarrow> 's py" where
  "for_each body s [] = Inr s"
| "for_each body s (x # xs) =
     (case body s x of Inl e \<Rightarrow> Inl e | Inr s' \<Rightarrow> for_each body s' xs)"

subsection \<open>UTF-8\<close>

definition byte :: "char \<Rightarrow> nat" where
  "byte c = of_char c"

definition is_cont :: "char \<Rightarrow> bool" where
  "is_cont c \<longleftrightarrow> 128 \<le> byte c \<and> byte c \<le> 191"

text \<open>
  The range of the second byte of a three-byte and of a four-byte sequence, which
  excludes overlong forms, surrogates and code points above U+10FFFF.
\<close>

definition second3 :: "nat \<Rightarrow> char \<Rightarrow> bool" where
  "second3 b c \<longleftrightarrow>
     (if b = 224 then 160 \<le> byte c \<and> byte c \<le> 191
      else if b = 237 then 128 \<le> byte c \<and> byte c \<le> 159
      else is_cont c)"

definition second4 :: "nat \<Rightarrow> char \<Rightarrow> bool" where
  "second4 b c \<longleftrightarrow>
     (if b = 240 then 144 \<le> byte c \<and> byte c \<le> 191
      else if b = 244 then 128 \<le> byte c \<and> byte c \<le> 143
      else is_cont c)"

text \<open>
  The number of bytes of the well-formed sequence a byte string starts with
  (0 when it starts with none), then well-formedness of the whole string: what the
  strict \<open>utf-8\<close> codec of \<open>bytes.decode\<close> accepts.
\<close>

fun utf8_head :: "string \<Rightarrow> nat" where
  "utf8_head [] = 0"
| "utf8_head (c # cs) =
     (if byte c < 128 then 1
      else if 194 \<le> byte c \<and> byte c \<le> 223 then
        (case cs of c1 # _ \<Rightarrow> if is_cont c1 then 2 else 0 | _ \<Rightarrow> 0)
      else if 224 \<le> byte c \<and> byte c \<le> 239 then
        (case cs of c1 # c2 # _ \<Rightarrow> if second3 (byte c) c1 \<and> is_cont c2 then 3 else 0 | _ \<Rightarrow> 0)
      else if 240 \<le> byte c \<and> byte c \<le> 244 then
        (case cs of c1 # c2 # c3 # _ \<Rightarrow>
           if second4 (byte c) c1 \<and> is_cont c2 \<and> is_cont c3 then 4 else 0 | _ \<Rightarrow> 0)
      else 0)"

function utf8_valid :: "string \<Rightarrow> bool" where
  "utf8_valid [] = True"
| "utf8_valid (c # cs) =
     (if utf8_head (c # cs) = 0 then False
      else utf8_valid (drop (utf8_head (c # cs)) (c # cs)))"
  by pat_completeness auto
termination
  by (relation "measure length") auto

text \<open>The characters of a \<open>str\<close>: each lead byte with the continuation bytes after it.\<close>

function utf8_chars :: "string \<Rightarrow> string list" where
  "utf8_chars [] = []"
| "utf8_chars (c # cs) = (c # takeWhile is_cont cs) # utf8_chars (dropWhile is_cont cs)"
  by pat_completeness auto
termination
  by (relation "measure length") (auto simp: length_dropWhile_le less_Suc_eq_le)

subsection \<open>Operations\<close>

text \<open>\<open>bool(x)\<close>.\<close>

fun truthy :: "pyval \<Rightarrow> bool" where
  "truthy PNone = False"
| "truthy (PBool b) = b"
| "truthy (PInt i) = (i \<noteq> 0)"
| "truthy (PStr s) = (s \<noteq> [])"
| "truthy (PBytes b) = (b \<noteq> [])"
| "truthy (PList xs) = (xs \<noteq> [])"
| "truthy (PDict d) = (d \<noteq> [])"
| "truthy (PObj a) = True"

text \<open>
  \<open>k in x\<close> for a string \<open>k\<close>: a key of a dictionary, a substring of a string, an
  element of a list; a \<open>TypeError\<close> on anything else.
\<close>

fun contains :: "string \<Rightarrow> pyval \<Rightarrow> bool py" where
  "contains k (PDict d) = Inr (k \<in> set (map fst d))"
| "contains k (PStr s) = Inr (sublist k s)"
| "contains k (PList xs) = Inr (PStr k \<in> set xs)"
| "contains k x = Inl (TypeError ''in'' x)"

text \<open>\<open>x[k]\<close> for a string \<open>k\<close>: only a dictionary can be indexed by a string.\<close>

fun getitem :: "pyval \<Rightarrow> string \<Rightarrow> pyval py" where
  "getitem (PDict d) k = (case map_of d k of None \<Rightarrow> Inl (KeyError k) | Some v \<Rightarrow> Inr v)"
| "getitem x k = Inl (TypeError ''subscript'' x)"

text \<open>
  The data attributes of a value: only a \<open>PObj\<close> has any. (The handler asks for
  \<open>bytes\<close>, \<open>attribution\<close> and \<open>citations\<close>, which no built-in type has; the methods
  \<open>get\<close>, \<open>decode\<close> and \<open>append\<close> of the built-in types are operations of their own
  below.)
\<close>

fun attrs :: "pyval \<Rightarrow> string \<Rightarrow> pyval option" where
  "attrs (PObj a) n = map_of a n"
| "attrs x n = None"

text \<open>
  \<open>x.get(k, dflt)\<close>: the method of a dictionary. An object whose attribute \<open>get\<close> is
  a plain value cannot be called; any other value has no such attribute.
\<close>

fun get_method :: "pyval \<Rightarrow> string \<Rightarrow> pyval \<Rightarrow> pyval py" where
  "get_method (PDict d) k dflt = Inr (case map_of d k of None \<Rightarrow> dflt | Some v \<Rightarrow> v)"
| "get_method x k dflt =
     (case attrs x ''get'' of
        Some g \<Rightarrow> Inl (TypeError ''call'' g)
      | None \<Rightarrow> Inl (AttributeError x ''get''))"

text \<open>\<open>x.decode('utf-8')\<close>: the method of \<open>bytes\<close>; a \<open>str\<close> has none.\<close>

fun decode :: "pyval \<Rightarrow> pyval py" where
  "decode (PBytes b) = (if utf8_valid b then Inr (PStr b) else Inl (UnicodeDecodeError b))"
| "decode x =
     (case attrs x ''decode'' of
        Some g \<Rightarrow> Inl (TypeError ''call'' g)
      | None \<Rightarrow> Inl (AttributeError x ''decode''))"

fun isinstance_dict :: "pyval \<Rightarrow> bool" where
  "isinstance_dict (PDict d) = True"
| "isinstance_dict x = False"

fun isinstance_bytes :: "pyval \<Rightarrow> bool" where
  "isinstance_bytes (PBytes b) = True"
| "isinstance_bytes x = False"

text \<open>
  The elements a \<open>for\<close> loop sees: those of a list, the keys of a dictionary, the
  characters of a string, the bytes of a byte string; a \<open>TypeError\<close> otherwise.
\<close>

fun iter :: "pyval \<Rightarrow> pyval list py" where
  "iter (PList xs) = Inr xs"
| "iter (PDict d) = Inr (map (\<lambda>kv. PStr (fst kv)) d)"
| "iter (PStr s) = Inr (map PStr (utf8_chars s))"
| "iter (PBytes b) = Inr (map (\<lambda>c. PInt (int (byte c))) b)"
| "iter x = Inl (TypeError ''iter'' x)"

text \<open>
  \<open>d[k] += v\<close> where \<open>d[k]\<close> is a \<open>str\<close>: only a \<open>str\<close> can be added. (The handler
  applies it to \<open>result['text']\<close>, a \<open>str\<close> throughout.)
\<close>

definition add_text :: "pydict \<Rightarrow> string \<Rightarrow> pyval \<Rightarrow> pydict py" where
  "add_text d k v =
     (case map_of d k of
        None \<Rightarrow> Inl (KeyError k)
      | Some (PStr t) \<Rightarrow>
          (case v of
             PStr s \<Rightarrow> Inr (AList.update k (PStr (t @ s)) d)
           | _ \<Rightarrow> Inl (TypeError ''concat'' v))
      | Some x \<Rightarrow> Inl (TypeError ''concat'' x))"

text \<open>\<open>d[k].append(v)\<close>: the method of a list.\<close>

definition list_append :: "pydict \<Rightarrow> string \<Rightarrow> pyval \<Rightarrow> pydict py" where
  "list_append d k v =
     (case map_of d k of
        None \<Rightarrow> Inl (KeyError k)
      | Some (PList xs) \<Rightarrow> Inr (AList.update k (PList (xs @ [v])) d)
      | Some x \<Rightarrow> Inl (AttributeError x ''append''))"

text \<open>The recurring pair of lines \<open>if k in src: dst[k] = src[k]\<close>.\<close>

definition copy_key :: "string \<Rightarrow> pyval \<Rightarrow> pydict \<Rightarrow> pydict py" where
  "copy_key k src dst =
     pybind (contains k src) (\<lambda>present.
       if present then pybind (getitem src k) (\<lambda>v. Inr (AList.update k v dst))
       else Inr dst)"

section \<open>InvokeAgent: the response normalizer\<close>

subsection \<open>Chunks\<close>

text \<open>
  Lines 176 to 191 of \<open>process_agent_response\<close>: the payload of a chunk is appended to
  \<open>result['text']\<close>. \<open>attr_bytes\<close> is the condition
  \<open>hasattr(chunk, 'bytes') and chunk.bytes\<close> together with the attribute it found.
  An object with a non-empty \<open>bytes\<close> attribute is decoded; a
  dictionary is decoded from its \<open>bytes\<close> entry when that holds bytes, skipped with a
  warning when it holds anything else, and read from its \<open>text\<close> entry only when it has
  no \<open>bytes\<close> entry; any other chunk is skipped with a warning.
\<close>

definition attr_bytes :: "pyval \<Rightarrow> pyval option" where
  "attr_bytes chunk =
     (case attrs chunk ''bytes'' of
        Some b \<Rightarrow> if truthy b then Some b else None
      | None \<Rightarrow> None)"

definition process_chunk_text :: "pydict \<Rightarrow> pyval \<Rightarrow> pydict py" where
  "process_chunk_text result chunk =
     (case attr_bytes chunk of
        Some b \<Rightarrow>
          pybind (decode b) (\<lambda>chunk_text. add_text result ''text'' chunk_text)
      | None \<Rightarrow>
          if isinstance_dict chunk then
            pybind (contains ''bytes'' chunk) (\<lambda>has_bytes.
              if has_bytes then
                pybind (getitem chunk ''bytes'') (\<lambda>b.
                  if isinstance_bytes b then
                    pybind (decode b) (\<lambda>chunk_text. add_text result ''text'' chunk_text)
                  else Inr result)
              else
                pybind (contains ''text'' chunk) (\<lambda>has_text.
                  if has_text then
                    pybind (getitem chunk ''text'') (\<lambda>t. add_text result ''text'' t)
                  else Inr result))
          else Inr result)"

text \<open>
  Lines 212 to 231: one retrieved reference. The state of the loop is the list
  \<open>references\<close>; the entry appended is \<open>ref_data\<close>.
\<close>

definition reference_content :: "pyval \<Rightarrow> pydict py" where
  "reference_content ref =
     pybind (contains ''content'' ref) (\<lambda>has_content.
       if has_content then
         pybind (getitem ref ''content'') (\<lambda>content.
           if isinstance_dict content then
             pybind (contains ''text'' content) (\<lambda>has_text.
               if has_text then
                 pybind (getitem content ''text'') (\<lambda>t. Inr (AList.update ''content'' t []))
               else Inr [])
           else Inr [])
       else Inr [])"

definition process_reference :: "pyval list \<Rightarrow> pyval \<Rightarrow> pyval list py" where
  "process_reference references ref =
     pybind (reference_content ref) (\<lambda>ref_data.
     pybind (copy_key ''location'' ref ref_data) (\<lambda>ref_data.
     pybind (copy_key ''metadata'' ref ref_data) (\<lambda>ref_data.
       Inr (references @ [PDict ref_data]))))"

text \<open>
  Lines 199 to 235: one citation of a dictionary chunk. The state of the loop is
  \<open>result\<close>; \<open>citation_data\<close> is appended to \<open>result['citations']\<close>.
\<close>

definition citation_text_part :: "pyval \<Rightarrow> pydict py" where
  "citation_text_part citation =
     pybind (contains ''generatedResponsePart'' citation) (\<lambda>has_part.
     pybind (if has_part then
               pybind (getitem citation ''generatedResponsePart'') (\<lambda>part.
                 contains ''textResponsePart'' part)
             else Inr False) (\<lambda>has_text_part.
       if has_text_part then
         pybind (getitem citation ''generatedResponsePart'') (\<lambda>part.
         pybind (getitem part ''textResponsePart'') (\<lambda>text_part.
         pybind (copy_key ''text'' text_part []) (\<lambda>citation_data.
           copy_key ''span'' text_part citation_data)))
       else Inr []))"

definition citation_references :: "pyval \<Rightarrow> pydict \<Rightarrow> pydict py" where
  "citation_references citation citation_data =
     pybind (contains ''retrievedReferences'' citation) (\<lambda>has_refs.
       if has_refs then
         pybind (getitem citation ''retrievedReferences'') (\<lambda>retrieved.
         pybind (iter retrieved) (\<lambda>refs.
         pybind (for_each process_reference [] refs) (\<lambda>references.
           Inr (AList.update ''references'' (PList references) citation_data))))
       else Inr citation_data)"

definition process_citation :: "pydict \<Rightarrow> pyval \<Rightarrow> pydict py" where
  "process_citation result citation =
     pybind (citation_text_part citation) (\<lambda>citation_data.
     pybind (citation_references citation citation_data) (\<lambda>citation_data.
       list_append result ''citations'' (PDict citation_data)))"

text \<open>Lines 194 to 237: the citations of a dictionary chunk.\<close>

definition process_chunk_citations :: "pydict \<Rightarrow> pyval \<Rightarrow> pydict py" where
  "process_chunk_citations result chunk =
     pybind (if isinstance_dict chunk then contains ''attribution'' chunk else Inr False)
       (\<lambda>has_attribution.
       if has_attribution then
         pybind (getitem chunk ''attribution'') (\<lambda>attribution.
         pybind (contains ''citations'' attribution) (\<lambda>has_citations.
           if has_citations then
             pybind (getitem attribution ''citations'') (\<lambda>cs.
             pybind (iter cs) (\<lambda>citations.
               for_each process_citation result citations))
           else Inr result))
       else Inr result)"

text \<open>
  Lines 240 to 248: the citations of an object chunk. \<open>attr_citations_try\<close> is the body
  of the inner \<open>try\<close>: one fixed record is appended for every element of
  \<open>chunk.attribution.citations\<close>. An exception raised there is caught by the inner
  handler, which logs it, and the event is processed further. (Only taking the
  iterator can raise, before anything has been appended.)
\<close>

definition attr_citations_try :: "pydict \<Rightarrow> pyval \<Rightarrow> pydict py" where
  "attr_citations_try result attribution =
     (case attrs attribution ''citations'' of
        None \<Rightarrow> Inr result
      | Some cs \<Rightarrow>
          pybind (iter cs) (\<lambda>citations.
            for_each (\<lambda>result citation.
              list_append result ''citations''
                (PDict [(''text'', PStr ''Citation from attribute access'')]))
              result citations))"

definition process_attr_citations :: "pydict \<Rightarrow> pyval \<Rightarrow> pydict" where
  "process_attr_citations result chunk =
     (case attrs chunk ''attribution'' of
        None \<Rightarrow> result
      | Some attribution \<Rightarrow>
          (case attr_citations_try result attribution of
             Inl attr_err \<Rightarrow> result
           | Inr result' \<Rightarrow> result'))"

text \<open>Lines 173 to 248: an event with a \<open>chunk\<close> key.\<close>

definition process_chunk :: "pydict \<Rightarrow> pyval \<Rightarrow> pydict py" where
  "process_chunk result event =
     pybind (contains ''chunk'' event) (\<lambda>has_chunk.
       if has_chunk then
         pybind (getitem event ''chunk'') (\<lambda>chunk.
         pybind (process_chunk_text result chunk) (\<lambda>result.
         pybind (process_chunk_citations result chunk) (\<lambda>result.
           Inr (process_attr_citations result chunk))))
       else Inr result)"

subsection \<open>Traces\<close>

text \<open>Lines 264 to 275: the \<open>guardrail\<close> record of a trace.\<close>

definition guardrail_record :: "pyval \<Rightarrow> pydict py" where
  "guardrail_record guardrail_trace =
     pybind (get_method guardrail_trace ''action'' PNone) (\<lambda>action.
     pybind (get_method guardrail_trace ''traceId'' PNone) (\<lambda>trace_id.
     pybind (copy_key ''inputAssessments'' guardrail_trace
               [(''action'', action), (''traceId'', trace_id)]) (\<lambda>guardrail.
       copy_key ''outputAssessments'' guardrail_trace guardrail)))"

text \<open>Lines 278 to 282: the \<open>orchestration\<close> record of a trace.\<close>

definition orchestration_record :: "pyval \<Rightarrow> pydict py" where
  "orchestration_record orchestration_trace =
     pybind (get_method orchestration_trace ''modelInvocationInput'' PNone) (\<lambda>inp.
     pybind (get_method orchestration_trace ''modelInvocationOutput'' PNone) (\<lambda>outp.
       Inr [(''modelInvocationInput'', inp), (''modelInvocationOutput'', outp)]))"

text \<open>Lines 260 to 282: the nested trace.\<close>

definition process_inner_trace :: "pyval \<Rightarrow> pydict \<Rightarrow> pydict py" where
  "process_inner_trace inner_trace trace_data =
     pybind (contains ''guardrailTrace'' inner_trace) (\<lambda>has_guardrail.
     pybind (if has_guardrail then
               pybind (getitem inner_trace ''guardrailTrace'') (\<lambda>guardrail_trace.
               pybind (guardrail_record guardrail_trace) (\<lambda>guardrail.
                 Inr (AList.update ''guardrail'' (PDict guardrail) trace_data)))
             else Inr trace_data) (\<lambda>trace_data.
     pybind (contains ''orchestrationTrace'' inner_trace) (\<lambda>has_orchestration.
       if has_orchestration then
         pybind (getitem inner_trace ''orchestrationTrace'') (\<lambda>orchestration_trace.
         pybind (orchestration_record orchestration_trace) (\<lambda>orchestration.
           Inr (AList.update ''orchestration'' (PDict orchestration) trace_data)))
       else Inr trace_data)))"

text \<open>Lines 251 to 284: an event with a \<open>trace\<close> key.\<close>

definition process_trace :: "pydict \<Rightarrow> pyval \<Rightarrow> pydict py" where
  "process_trace result event =
     pybind (contains ''trace'' event) (\<lambda>has_trace.
       if has_trace then
         pybind (getitem event ''trace'') (\<lambda>trace.
         pybind (for_each (\<lambda>trace_data key. copy_key key trace trace_data) []
                   [''agentId'', ''agentAliasId'', ''agentVersion'', ''sessionId''])
           (\<lambda>trace_data.
         pybind (contains ''trace'' trace) (\<lambda>has_inner.
         pybind (if has_inner then
                   pybind (getitem trace ''trace'') (\<lambda>inner_trace.
                     process_inner_trace inner_trace trace_data)
                 else Inr trace_data) (\<lambda>trace_data.
           list_append result ''traces'' (PDict trace_data)))))
       else Inr result)"

subsection \<open>Errors\<close>

definition error_types :: "string list" where
  "error_types =
     [''accessDeniedException'', ''badGatewayException'', ''conflictException'',
      ''dependencyFailedException'', ''internalServerException'', ''modelNotReadyException'',
      ''resourceNotFoundException'', ''serviceQuotaExceededException'',
      ''throttlingException'', ''validationException'']"

text \<open>Lines 291 to 296: one error type of one event.\<close>

definition process_error :: "pyval \<Rightarrow> pydict \<Rightarrow> string \<Rightarrow> pydict py" where
  "process_error event result error_type =
     pybind (contains error_type event) (\<lambda>present.
       if present then
         pybind (getitem event error_type) (\<lambda>err.
         pybind (get_method err ''message'' (PStr ''Unknown error'')) (\<lambda>message.
           Inr (AList.update ''error''
                  (PDict [(''type'', PStr error_type), (''message'', message)]) result)))
       else Inr result)"

subsection \<open>The stream\<close>

text \<open>Lines 170 to 296: one event of the stream.\<close>

definition process_event :: "pydict \<Rightarrow> pyval \<Rightarrow> pydict py" where
  "process_event result event =
     pybind (process_chunk result event) (\<lambda>result.
     pybind (process_trace result event) (\<lambda>result.
       for_each (process_error event) result error_types))"

text \<open>Lines 168 to 170: the events, none when the response has no \<open>completion\<close>.\<close>

definition completion_events :: "pyval \<Rightarrow> pyval list py" where
  "completion_events response =
     pybind (contains ''completion'' response) (\<lambda>has_completion.
       if has_completion then pybind (getitem response ''completion'') iter
       else Inr [])"

definition initial_result :: pydict where
  "initial_result = [(''text'', PStr []), (''citations'', PList []), (''traces'', PList [])]"

text \<open>Lines 161 to 309: the body of the outer \<open>try\<close>.\<close>

definition process_body :: "pyval \<Rightarrow> pydict py" where
  "process_body response =
     pybind (completion_events response) (\<lambda>events.
     pybind (for_each process_event initial_result events) (\<lambda>result.
     pybind (copy_key ''contentType'' response result) (\<lambda>result.
       copy_key ''memoryId'' response result)))"

text \<open>Lines 314 to 317: the record returned when the body raised.\<close>

definition fallback :: "string \<Rightarrow> pydict" where
  "fallback message =
     [(''text'', PStr ''Error processing agent response''), (''error'', PStr message)]"

text \<open>
  \<open>process_agent_response\<close>. The message \<open>str(e)\<close> of an exception is the
  interpreter's, so the function that renders it is a parameter.
\<close>

definition process_agent_response :: "(pyerr \<Rightarrow> string) \<Rightarrow> pyval \<Rightarrow> pydict" where
  "process_agent_response str response =
     (case process_body response of
        Inr result \<Rightarrow> result
      | Inl e \<Rightarrow> fallback (str e))"

subsection \<open>What the specification calls the parts of a stream\<close>

text \<open>
  The decoded payload of a chunk, in the words of the specification: raw bytes read
  through the \<open>bytes\<close> attribute, or a mapping with a \<open>bytes\<close> field, or else with a
  \<open>text\<close> field; a chunk with no payload of these kinds contributes nothing.
\<close>

definition decoded_payload :: "pyval \<Rightarrow> string" where
  "decoded_payload chunk =
     (case chunk of
        PObj a \<Rightarrow> (case map_of a ''bytes'' of Some (PBytes b) \<Rightarrow> b | _ \<Rightarrow> [])
      | PDict d \<Rightarrow>
          (case map_of d ''bytes'' of
             Some (PBytes b) \<Rightarrow> b
           | Some _ \<Rightarrow> []
           | None \<Rightarrow> (case map_of d ''text'' of Some (PStr s) \<Rightarrow> s | _ \<Rightarrow> []))
      | _ \<Rightarrow> [])"

text \<open>An event carries a key when it is a mapping that has it.\<close>

definition carries :: "pyval \<Rightarrow> string \<Rightarrow> bool" where
  "carries event k = (case event of PDict d \<Rightarrow> map_of d k \<noteq> None | _ \<Rightarrow> False)"

definition has_chunk :: "pyval \<Rightarrow> bool" where
  "has_chunk event = carries event ''chunk''"

definition event_payload :: "pyval \<Rightarrow> string" where
  "event_payload event =
     (case event of
        PDict d \<Rightarrow> (case map_of d ''chunk'' of Some chunk \<Rightarrow> decoded_payload chunk | None \<Rightarrow> [])
      | _ \<Rightarrow> [])"

text \<open>
  The error variants an event carries, in the order of the handler's list, and the
  record \<open>{type, message}\<close> of one of them.
\<close>

definition variants_of :: "pyval \<Rightarrow> string list" where
  "variants_of event = filter (carries event) error_types"

definition error_record :: "pyval \<Rightarrow> string \<Rightarrow> pyval" where
  "error_record event error_type =
     PDict [(''type'', PStr error_type),
            (''message'',
             (case event of
                PDict d \<Rightarrow>
                  (case map_of d error_type of
                     Some (PDict err) \<Rightarrow>
                       (case map_of err ''message'' of
                          Some m \<Rightarrow> m
                        | None \<Rightarrow> PStr ''Unknown error'')
                   | _ \<Rightarrow> PStr ''Unknown error'')
              | _ \<Rightarrow> PStr ''Unknown error''))]"

text \<open>
  The \<open>error\<close> field the specification gives a stream: that of the last event that
  carries an error variant (of the last variant of the list, should the event carry
  several), none when no event does.
\<close>

definition last_error :: "pyval list \<Rightarrow> pyval option" where
  "last_error events =
     (case filter (\<lambda>event. variants_of event \<noteq> []) events of
        [] \<Rightarrow> None
      | es \<Rightarrow> Some (error_record (last es) (last (variants_of (last es)))))"



text \<open>The four fields of a result under construction.\<close>

definition result_fields ::
  "pydict \<Rightarrow> string \<Rightarrow> pyval list \<Rightarrow> pyval list \<Rightarrow> pyval option \<Rightarrow> bool" where
  "result_fields result t cs ts e \<longleftrightarrow>
     map_of result ''text'' = Some (PStr t) \<and>
     map_of result ''citations'' = Some (PList cs) \<and>
     map_of result ''traces'' = Some (PList ts) \<and>
     map_of result ''error'' = e"

subsection \<open>Examples\<close>

text \<open>
  A rendering of exceptions for evaluating the normalizer on examples: the name of
  the class stands for the message.
\<close>

definition exception_class :: "pyerr \<Rightarrow> string" where
  "exception_class e =
     (case e of
        TypeError op x \<Rightarrow> ''TypeError''
      | AttributeError x n \<Rightarrow> ''AttributeError''
      | KeyError k \<Rightarrow> ''KeyError''
      | UnicodeDecodeError b \<Rightarrow> ''UnicodeDecodeError'')"

section \<open>QueryKnowledgeBase: the retrying query executor\<close>

text \<open>
  What \<open>retrieve_and_generate\<close> raises: a \<open>ClientError\<close>, of which the handler reads
  \<open>response['Error']['Code']\<close> and \<open>response['Error']['Message']\<close> (either may be
  missing), or an exception of another class.
\<close>

datatype exn =
    ClientError "string option" "string option"
  | OtherException string

text \<open>
  The remote service answers a call with a response or an exception; its answer may
  depend on the calls made before. The state of the world is the list of the parameter
  bags of the calls made so far.
\<close>

type_synonym service = "pydict list \<Rightarrow> pydict \<Rightarrow> exn + pyval"

definition retrieve_and_generate ::
  "service \<Rightarrow> pydict list \<Rightarrow> pydict \<Rightarrow> (exn + pyval) \<times> pydict list" where
  "retrieve_and_generate service calls params = (service calls params, calls @ [params])"

text \<open>Lines 58 to 64: the test for an invalid session id.\<close>

definition invalid_session :: "exn \<Rightarrow> bool" where
  "invalid_session e =
     (case e of
        ClientError code message \<Rightarrow>
          (let error_code = (case code of None \<Rightarrow> ''Unknown'' | Some c \<Rightarrow> c);
               error_message = (case message of None \<Rightarrow> [] | Some m \<Rightarrow> m)
           in error_code = ''ValidationException'' \<and>
              sublist ''is not valid'' error_message \<and>
              sublist ''Session with Id'' error_message)
      | OtherException x \<Rightarrow> False)"

text \<open>
  \<open>perform_retrieve_and_generate\<close>. It returns the response with the flag, or the
  exception it raises; the calls made; and the dictionary \<open>retrieve_params\<close> as the
  caller finds it afterwards, since \<open>pop\<close> changes the caller's dictionary itself.
  An exception that is not a \<open>ClientError\<close> is not caught.
\<close>

definition perform_retrieve_and_generate ::
  "service \<Rightarrow> pydict list \<Rightarrow> pydict \<Rightarrow> (exn + pyval \<times> bool) \<times> pydict list \<times> pydict" where
  "perform_retrieve_and_generate service calls retrieve_params =
     (case retrieve_and_generate service calls retrieve_params of
        (Inr response, calls1) \<Rightarrow> (Inr (response, False), calls1, retrieve_params)
      | (Inl e, calls1) \<Rightarrow>
          if invalid_session e then
            if ''sessionId'' \<in> set (map fst retrieve_params) then
              (let retrieve_params' = AList.delete ''sessionId'' retrieve_params in
               case retrieve_and_generate service calls1 retrieve_params' of
                 (Inr response, calls2) \<Rightarrow> (Inr (response, True), calls2, retrieve_params')
               | (Inl e2, calls2) \<Rightarrow> (Inl e2, calls2, retrieve_params'))
            else (Inl e, calls1, retrieve_params)
          else (Inl e, calls1, retrieve_params))"

subsection \<open>Examples\<close>

text \<open>
  A service for examples: it rejects every call that carries a session id, with the
  message of the runtime, and answers every other call.
\<close>

definition stale_session_service :: service where
  "stale_session_service calls params =
     (if ''sessionId'' \<in> set (map fst params)
      then Inl (ClientError (Some ''ValidationException'')
                  (Some ''Session with Id abc123 is not valid''))
      else Inr (PDict [(''sessionId'', PStr ''new-session'')]))"

text \<open>A service for examples that raises the same exception at every call.\<close>

definition rejecting_service :: "exn \<Rightarrow> service" where
  "rejecting_service e calls params = Inl e"

section \<open>SyncKnowledgeBase: waiting for the ingestion job\<close>

text \<open>
  The world of the loop at lines 58 to 96: the reading of the clock, in the time
  unit of \<open>max_wait_time\<close>, and the number of calls of \<open>get_ingestion_job\<close> made.
  The \<open>n\<close>-th call returns the status \<open>status n\<close> and takes \<open>latency n\<close> time units;
  \<open>time.sleep(10)\<close> takes 10; nothing else takes time. (A call that raises ends
  the handler in its \<open>except\<close> clauses and is not part of the loop modelled here.)
\<close>

record world =
  now :: int
  polls :: nat

datatype body = Message string | Error string

record response =
  statusCode :: nat
  body :: body

function wait_for_job ::
  "(nat \<Rightarrow> string) \<Rightarrow> (nat \<Rightarrow> nat) \<Rightarrow> int \<Rightarrow> int \<Rightarrow> world \<Rightarrow> response \<times> world" where
  "wait_for_job status latency max_wait_time start_time w =
     (if now w - start_time < max_wait_time then
        if status (polls w) = ''COMPLETE'' then
          (\<lparr>statusCode = 200,
            body = Message ''Knowledge base ingestion completed successfully''\<rparr>,
           \<lparr>now = now w + int (latency (polls w)), polls = Suc (polls w)\<rparr>)
        else if status (polls w) \<in> set [''FAILED'', ''STOPPED''] then
          (\<lparr>statusCode = 500,
            body = Error (''Knowledge base ingestion failed with status: '' @ status (polls w))\<rparr>,
           \<lparr>now = now w + int (latency (polls w)), polls = Suc (polls w)\<rparr>)
        else
          wait_for_job status latency max_wait_time start_time
            \<lparr>now = now w + int (latency (polls w)) + 10, polls = Suc (polls w)\<rparr>
      else
        (\<lparr>statusCode = 200,
          body = Message ''Knowledge base ingestion started but did not complete within timeout''\<rparr>,
         w))"
  by pat_completeness auto
termination
  by (relation "measure (\<lambda>(status, latency, max_wait_time, start_time, w).
        nat (start_time + max_wait_time - now w))") auto

text \<open>Lines 59 to 96: the wait, with the limit of 300 and the clock read at the start.\<close>

definition await_completion :: "(nat \<Rightarrow> string) \<Rightarrow> (nat \<Rightarrow> nat) \<Rightarrow> world \<Rightarrow> response \<times> world" where
  "await_completion status latency w = wait_for_job status latency 300 (now w) w"

subsection \<open>What the specification calls the parts of the wait\<close>

text \<open>
  The time elapsed when the loop tests its condition for the \<open>k\<close>-th time after
  \<open>k\<close> polls that showed no final status (counting from 0).
\<close>

definition elapsed_at :: "(nat \<Rightarrow> nat) \<Rightarrow> nat \<Rightarrow> int" where
  "elapsed_at latency k = (\<Sum>i<k. int (latency i) + 10)"

definition final_status :: "string \<Rightarrow> bool" where
  "final_status s \<longleftrightarrow> s = ''COMPLETE'' \<or> s = ''FAILED'' \<or> s = ''STOPPED''"

text \<open>
  The world after \<open>k\<close> further rounds of the loop in which the poll showed no final
  status: each round takes the latency of its poll and the sleep of 10.
\<close>

fun world_after :: "(nat \<Rightarrow> nat) \<Rightarrow> world \<Rightarrow> nat \<Rightarrow> world" where
  "world_after latency w 0 = w"
| "world_after latency w (Suc k) =
     world_after latency \<lparr>now = now w + int (latency (polls w)) + 10, polls = Suc (polls w)\<rparr> k"

subsection \<open>Examples\<close>

text \<open>Jobs and latencies for examples.\<close>

definition two_then_complete :: "nat \<Rightarrow> string" where
  "two_then_complete n = (if n < 2 then ''STARTING'' else ''COMPLETE'')"

definition thirty_then_complete :: "nat \<Rightarrow> string" where
  "thirty_then_complete n = (if n < 30 then ''IN_PROGRESS'' else ''COMPLETE'')"

definition two_then_failed :: "nat \<Rightarrow> string" where
  "two_then_failed n = (if n < 2 then ''STARTING'' else ''FAILED'')"

definition instant :: "nat \<Rightarrow> nat" where
  "instant n = 0"

definition never_final :: "nat \<Rightarrow> string" where
  "never_final n = ''IN_PROGRESS''"

section \<open>Properties of the normalizer\<close>

lemma pybind_simps [simp]:
  "pybind (Inr x) f = f x"
  "pybind (Inl e) f = Inl e"
  by (simp_all add: pybind_def)

lemma pybind_eq_Inr:
  "pybind m f = Inr y \<longleftrightarrow> (\<exists>x. m = Inr x \<and> f x = Inr y)"
  by (cases m) simp_all

lemma for_each_append:
  "for_each loop_body s (xs @ ys) = pybind (for_each loop_body s xs) (\<lambda>s'. for_each loop_body s' ys)"
  by (induction xs arbitrary: s) (auto split: sum.splits)

lemma contains_dict: "contains k (PDict d) = Inr (map_of d k \<noteq> None)"
  by (simp add: map_of_eq_None_iff)

lemma contains_True_cases:
  assumes "contains k x = Inr True" "getitem x k = Inr v"
  shows "\<exists>d. x = PDict d \<and> map_of d k = Some v"
  using assms by (cases x) (auto split: option.splits)

lemma add_text_effect:
  assumes "add_text d k v = Inr d'"
  shows "\<exists>t s. map_of d k = Some (PStr t) \<and> v = PStr s \<and> map_of d' = (map_of d)(k \<mapsto> PStr (t @ s))"
  using assms by (auto simp: add_text_def update_conv' split: option.splits pyval.splits)

lemma list_append_effect:
  assumes "list_append d k v = Inr d'"
  shows "\<exists>xs. map_of d k = Some (PList xs) \<and> map_of d' = (map_of d)(k \<mapsto> PList (xs @ [v]))"
  using assms by (auto simp: list_append_def update_conv' split: option.splits pyval.splits)

lemma copy_key_effect:
  assumes "copy_key k src dst = Inr dst'"
  shows "map_of dst' = map_of dst \<or> (\<exists>v. getitem src k = Inr v \<and> map_of dst' = (map_of dst)(k \<mapsto> v))"
  using assms by (auto simp: copy_key_def pybind_eq_Inr update_conv' split: if_splits)

lemma copy_key_other:
  assumes "copy_key k src dst = Inr dst'" "k' \<noteq> k"
  shows "map_of dst' k' = map_of dst k'"
  using copy_key_effect [OF assms(1)] assms(2) by auto

lemma decode_Inr: "decode b = Inr x \<Longrightarrow> \<exists>bs. b = PBytes bs \<and> x = PStr bs"
  by (cases b) (auto split: if_splits option.splits)

lemma attr_bytes_Some:
  "attr_bytes chunk = Some b \<Longrightarrow> \<exists>a. chunk = PObj a \<and> map_of a ''bytes'' = Some b \<and> truthy b"
  by (cases chunk) (auto simp: attr_bytes_def split: option.splits if_splits)

lemma attr_bytes_None_payload:
  "attr_bytes (PObj a) = None \<Longrightarrow> decoded_payload (PObj a) = []"
  by (auto simp: attr_bytes_def decoded_payload_def split: option.splits if_splits pyval.splits)

lemma chunk_text_effect:
  assumes "process_chunk_text result chunk = Inr result'"
    and "map_of result ''text'' = Some (PStr t)"
  shows "map_of result' = (map_of result)(''text'' \<mapsto> PStr (t @ decoded_payload chunk))"
proof (cases "attr_bytes chunk")
  case (Some b)
  then obtain a where a: "chunk = PObj a" "map_of a ''bytes'' = Some b"
    using attr_bytes_Some by blast
  from assms(1) Some obtain x where x: "decode b = Inr x" "add_text result ''text'' x = Inr result'"
    by (auto simp: process_chunk_text_def pybind_eq_Inr)
  from decode_Inr [OF x(1)] obtain bs where bs: "b = PBytes bs" "x = PStr bs" by blast
  from add_text_effect [OF x(2)] assms(2) bs
  have "map_of result' = (map_of result)(''text'' \<mapsto> PStr (t @ bs))" by auto
  moreover have "decoded_payload chunk = bs"
    using a bs by (simp add: decoded_payload_def)
  ultimately show ?thesis by simp
next
  case None
  have triv: "(map_of result)(''text'' \<mapsto> PStr t) = map_of result"
    using assms(2) by (simp add: fun_upd_idem)
  show ?thesis
  proof (cases chunk)
    case (PDict d)
    show ?thesis
    proof (cases "map_of d ''bytes''")
      case bnone: None
      show ?thesis
      proof (cases "map_of d ''text''")
        case None
        with bnone assms(1) \<open>attr_bytes chunk = None\<close> PDict triv show ?thesis
          by (simp add: process_chunk_text_def contains_dict decoded_payload_def del: contains.simps)
      next
        case (Some v)
        with bnone assms(1) \<open>attr_bytes chunk = None\<close> PDict
        have "add_text result ''text'' v = Inr result'"
          by (simp add: process_chunk_text_def contains_dict del: contains.simps)
        from add_text_effect [OF this] assms(2) obtain s where
          "v = PStr s" "map_of result' = (map_of result)(''text'' \<mapsto> PStr (t @ s))" by auto
        with bnone Some PDict show ?thesis by (simp add: decoded_payload_def)
      qed
    next
      case (Some b)
      show ?thesis
      proof (cases "isinstance_bytes b")
        case True
        with Some assms(1) \<open>attr_bytes chunk = None\<close> PDict
        obtain x where x: "decode b = Inr x" "add_text result ''text'' x = Inr result'"
          by (auto simp: process_chunk_text_def contains_dict pybind_eq_Inr simp del: contains.simps)
        from decode_Inr [OF x(1)] obtain bs where bs: "b = PBytes bs" "x = PStr bs" by blast
        from add_text_effect [OF x(2)] assms(2) bs
        have "map_of result' = (map_of result)(''text'' \<mapsto> PStr (t @ bs))" by auto
        with Some bs PDict show ?thesis by (simp add: decoded_payload_def)
      next
        case False
        with Some assms(1) \<open>attr_bytes chunk = None\<close> PDict have "result' = result"
          by (simp add: process_chunk_text_def contains_dict del: contains.simps)
        moreover from False Some PDict have "decoded_payload chunk = []"
          by (cases b) (simp_all add: decoded_payload_def)
        ultimately show ?thesis using triv by simp
      qed
    qed
  next
    case (PObj a)
    with None assms(1) have "result' = result"
      by (simp add: process_chunk_text_def)
    with None PObj attr_bytes_None_payload triv show ?thesis by simp
  qed (use None assms(1) triv in \<open>simp_all add: process_chunk_text_def decoded_payload_def\<close>)
qed

lemma for_each_appends:
  assumes step: "\<forall>s x s'. loop_body s x = Inr s' \<longrightarrow>
      (\<exists>xs v. map_of s k = Some (PList xs) \<and> map_of s' = (map_of s)(k \<mapsto> PList (xs @ [v])))"
    and "for_each loop_body s ys = Inr s'"
    and "map_of s k = Some (PList xs)"
  shows "\<exists>new. length new = length ys \<and> map_of s' = (map_of s)(k \<mapsto> PList (xs @ new))"
  using assms(2,3)
proof (induction ys arbitrary: s xs)
  case Nil
  then show ?case by (auto simp: fun_eq_iff)
next
  case (Cons y ys)
  from Cons.prems(1) obtain s1 where s1: "loop_body s y = Inr s1" "for_each loop_body s1 ys = Inr s'"
    by (auto split: sum.splits)
  from step s1(1) obtain xs' v where
    "map_of s k = Some (PList xs')" "map_of s1 = (map_of s)(k \<mapsto> PList (xs' @ [v]))"
    by blast
  with Cons.prems(2) have v: "map_of s1 = (map_of s)(k \<mapsto> PList (xs @ [v]))" by simp
  then have "map_of s1 k = Some (PList (xs @ [v]))" by simp
  from Cons.IH [OF s1(2) this] obtain new where
    new: "length new = length ys" "map_of s' = (map_of s1)(k \<mapsto> PList ((xs @ [v]) @ new))" by blast
  show ?case
    by (rule exI [of _ "v # new"]) (use new v in simp)
qed

lemma process_citation_effect:
  assumes "process_citation result citation = Inr result'"
  shows "\<exists>xs v. map_of result ''citations'' = Some (PList xs) \<and>
           map_of result' = (map_of result)(''citations'' \<mapsto> PList (xs @ [v]))"
  using assms by (auto simp: process_citation_def pybind_eq_Inr dest!: list_append_effect)

lemma chunk_citations_effect:
  assumes "process_chunk_citations result chunk = Inr result'"
    and "map_of result ''citations'' = Some (PList cs)"
  shows "\<exists>new. map_of result' = (map_of result)(''citations'' \<mapsto> PList (cs @ new))"
proof (cases "result' = result")
  case True
  with assms(2) show ?thesis
    by (intro exI [of _ "[]"]) (simp add: fun_upd_idem)
next
  case False
  with assms(1) obtain citations :: "pyval list" where
    "for_each process_citation result citations = Inr result'"
    by (auto simp: process_chunk_citations_def pybind_eq_Inr split: if_splits)
  have step: "\<forall>s x s'. process_citation s x = Inr s' \<longrightarrow>
      (\<exists>xs v. map_of s ''citations'' = Some (PList xs) \<and>
        map_of s' = (map_of s)(''citations'' \<mapsto> PList (xs @ [v])))"
    by (blast dest: process_citation_effect)
  from for_each_appends [where loop_body = process_citation, OF step \<open>for_each process_citation result citations = Inr result'\<close> assms(2)]
  show ?thesis by blast
qed

lemma attr_citations_effect:
  assumes "map_of result ''citations'' = Some (PList cs)"
  shows "\<exists>new. map_of (process_attr_citations result chunk) =
           (map_of result)(''citations'' \<mapsto> PList (cs @ new))"
proof (cases "process_attr_citations result chunk = result")
  case True
  with assms show ?thesis
    by (intro exI [of _ "[]"]) (simp add: fun_upd_idem)
next
  case False
  then obtain citations :: "pyval list" where loop:
    "for_each (\<lambda>result citation. list_append result ''citations''
        (PDict [(''text'', PStr ''Citation from attribute access'')])) result citations
      = Inr (process_attr_citations result chunk)"
    by (auto simp: process_attr_citations_def attr_citations_try_def pybind_eq_Inr
        split: option.splits sum.splits)
  have step: "\<forall>s (x::pyval) s'. list_append s ''citations''
        (PDict [(''text'', PStr ''Citation from attribute access'')]) = Inr s' \<longrightarrow>
      (\<exists>xs v. map_of s ''citations'' = Some (PList xs) \<and>
        map_of s' = (map_of s)(''citations'' \<mapsto> PList (xs @ [v])))"
    by (blast dest: list_append_effect)
  from for_each_appends [OF step loop assms]
  show ?thesis by blast
qed

lemma process_chunk_fields:
  assumes "process_chunk result event = Inr result'"
    and "result_fields result t cs ts e"
  shows "\<exists>new. result_fields result' (t @ event_payload event) (cs @ new) ts e \<and>
           (\<not> has_chunk event \<longrightarrow> new = [])"
proof (cases "contains ''chunk'' event = Inr True")
  case True
  with assms(1) obtain chunk r1 r2 where
    c: "getitem event ''chunk'' = Inr chunk"
    and r1: "process_chunk_text result chunk = Inr r1"
    and r2: "process_chunk_citations r1 chunk = Inr r2"
    and r3: "result' = process_attr_citations r2 chunk"
    by (auto simp: process_chunk_def pybind_eq_Inr)
  from contains_True_cases [OF True c] obtain d where d: "event = PDict d" "map_of d ''chunk'' = Some chunk"
    by blast
  then have pay: "event_payload event = decoded_payload chunk"
    by (simp add: event_payload_def)
  from assms(2) have t: "map_of result ''text'' = Some (PStr t)" by (simp add: result_fields_def)
  note m1 = chunk_text_effect [OF r1 t]
  with assms(2) have "map_of r1 ''citations'' = Some (PList cs)" by (simp add: result_fields_def)
  from chunk_citations_effect [OF r2 this] obtain n1 where
    m2: "map_of r2 = (map_of r1)(''citations'' \<mapsto> PList (cs @ n1))" by blast
  then have "map_of r2 ''citations'' = Some (PList (cs @ n1))" by simp
  from attr_citations_effect [OF this, of chunk] r3 obtain n2 where
    m3: "map_of result' = (map_of r2)(''citations'' \<mapsto> PList ((cs @ n1) @ n2))" by blast
  have "result_fields result' (t @ event_payload event) (cs @ (n1 @ n2)) ts e"
    using assms(2) m1 m2 m3 pay by (simp add: result_fields_def)
  moreover have "has_chunk event" using d by (simp add: has_chunk_def carries_def)
  ultimately show ?thesis by blast
next
  case False
  with assms(1) have eq: "result' = result" and no: "contains ''chunk'' event = Inr False"
    by (auto simp: process_chunk_def pybind_eq_Inr split: if_splits)
  from no have "event_payload event = []"
    by (cases event) (simp_all add: event_payload_def contains_dict del: contains.simps)
  with eq assms(2) show ?thesis by (intro exI [of _ "[]"]) simp
qed

lemma process_trace_fields:
  assumes "process_trace result event = Inr result'"
    and "result_fields result t cs ts e"
  shows "\<exists>new. result_fields result' t cs (ts @ new) e"
proof (cases "result' = result")
  case True
  with assms(2) show ?thesis by (intro exI [of _ "[]"]) simp
next
  case False
  with assms(1) obtain v where "list_append result ''traces'' v = Inr result'"
    by (auto simp: process_trace_def pybind_eq_Inr split: if_splits)
  from list_append_effect [OF this] assms(2) show ?thesis
    by (intro exI [of _ "[v]"]) (auto simp: result_fields_def)
qed

lemma process_error_effect:
  assumes "process_error event result error_type = Inr result'"
  shows "map_of result' =
     (if carries event error_type
      then (map_of result)(''error'' \<mapsto> error_record event error_type)
      else map_of result)"
proof (cases "contains error_type event = Inr True")
  case True
  with assms obtain err m where
    err: "getitem event error_type = Inr err"
    and m: "get_method err ''message'' (PStr ''Unknown error'') = Inr m"
    and r: "result' = AList.update ''error''
              (PDict [(''type'', PStr error_type), (''message'', m)]) result"
    by (auto simp: process_error_def pybind_eq_Inr)
  from contains_True_cases [OF True err] obtain d where
    d: "event = PDict d" "map_of d error_type = Some err" by blast
  from m obtain ed where ed: "err = PDict ed"
    "m = (case map_of ed ''message'' of None \<Rightarrow> PStr ''Unknown error'' | Some v \<Rightarrow> v)"
    by (cases err) (auto split: option.splits)
  have "error_record event error_type = PDict [(''type'', PStr error_type), (''message'', m)]"
    using d ed by (simp add: error_record_def split: option.splits)
  with r d show ?thesis by (simp add: update_conv' carries_def)
next
  case False
  with assms have eq: "result' = result" and no: "contains error_type event = Inr False"
    by (auto simp: process_error_def pybind_eq_Inr split: if_splits)
  from no have "\<not> carries event error_type"
    by (cases event) (simp_all add: carries_def contains_dict del: contains.simps)
  with eq show ?thesis by simp
qed

lemma errors_effect:
  assumes "for_each (process_error event) result ets = Inr result'"
  shows "map_of result' =
     (case filter (carries event) ets of
        [] \<Rightarrow> map_of result
      | vs \<Rightarrow> (map_of result)(''error'' \<mapsto> error_record event (last vs)))"
  using assms
proof (induction ets arbitrary: result)
  case Nil
  then show ?case by simp
next
  case (Cons et ets)
  from Cons.prems obtain r1 where r1: "process_error event result et = Inr r1"
    "for_each (process_error event) r1 ets = Inr result'"
    by (auto split: sum.splits)
  note step = process_error_effect [OF r1(1)]
  note rest = Cons.IH [OF r1(2)]
  show ?case
  proof (cases "filter (carries event) ets")
    case Nil
    with step rest show ?thesis by (auto simp: fun_eq_iff)
  next
    case (Cons v vs)
    with step rest show ?thesis by (auto simp: fun_eq_iff)
  qed
qed

lemma process_event_fields:
  assumes "process_event result event = Inr result'"
    and "result_fields result t cs ts e"
  shows "\<exists>nc nt. result_fields result' (t @ event_payload event) (cs @ nc) (ts @ nt)
           (case variants_of event of [] \<Rightarrow> e
            | vs \<Rightarrow> Some (error_record event (last vs))) \<and>
           (\<not> has_chunk event \<longrightarrow> nc = [])"
proof -
  from assms(1) obtain r1 r2 where
    r1: "process_chunk result event = Inr r1"
    and r2: "process_trace r1 event = Inr r2"
    and r3: "for_each (process_error event) r2 error_types = Inr result'"
    by (auto simp: process_event_def pybind_eq_Inr)
  from process_chunk_fields [OF r1 assms(2)] obtain nc where
    f1: "result_fields r1 (t @ event_payload event) (cs @ nc) ts e"
    and nc: "\<not> has_chunk event \<longrightarrow> nc = []" by blast
  from process_trace_fields [OF r2 f1] obtain nt where
    f2: "result_fields r2 (t @ event_payload event) (cs @ nc) (ts @ nt) e" by blast
  from errors_effect [OF r3] f2
  have "result_fields result' (t @ event_payload event) (cs @ nc) (ts @ nt)
           (case variants_of event of [] \<Rightarrow> e
            | vs \<Rightarrow> Some (error_record event (last vs)))"
    by (cases "filter (carries event) error_types")
       (simp_all add: result_fields_def variants_of_def)
  with nc show ?thesis by blast
qed

lemma last_error_Cons:
  "last_error (event # events) =
     (case last_error events of
        Some x \<Rightarrow> Some x
      | None \<Rightarrow>
          (case variants_of event of [] \<Rightarrow> None
           | vs \<Rightarrow> Some (error_record event (last vs))))"
  by (cases "filter (\<lambda>event. variants_of event \<noteq> []) events")
     (auto simp: last_error_def split: list.splits)

lemma stream_fields:
  assumes "for_each process_event result events = Inr result'"
    and "result_fields result t cs ts e"
  shows "\<exists>nc nt. result_fields result' (t @ concat (map event_payload events)) (cs @ nc) (ts @ nt)
           (case last_error events of None \<Rightarrow> e | Some x \<Rightarrow> Some x) \<and>
           ((\<forall>event \<in> set events. \<not> has_chunk event) \<longrightarrow> nc = [])"
  using assms
proof (induction events arbitrary: result t cs ts e)
  case Nil
  then have "result_fields result' (t @ concat (map event_payload [])) (cs @ []) (ts @ [])
      (case last_error [] of None \<Rightarrow> e | Some x \<Rightarrow> Some x)"
    by (simp add: last_error_def)
  then show ?case by blast
next
  case (Cons ev evs)
  from Cons.prems(1) obtain r1 where r1: "process_event result ev = Inr r1"
    "for_each process_event r1 evs = Inr result'"
    by (auto split: sum.splits)
  from process_event_fields [OF r1(1) Cons.prems(2)] obtain nc nt where
    f1: "result_fields r1 (t @ event_payload ev) (cs @ nc) (ts @ nt)
           (case variants_of ev of [] \<Rightarrow> e | vs \<Rightarrow> Some (error_record ev (last vs)))"
    and nc: "\<not> has_chunk ev \<longrightarrow> nc = []" by blast
  from Cons.IH [OF r1(2) f1] obtain nc' nt' where
    f2: "result_fields result' ((t @ event_payload ev) @ concat (map event_payload evs))
           ((cs @ nc) @ nc') ((ts @ nt) @ nt')
           (case last_error evs of
              None \<Rightarrow> (case variants_of ev of [] \<Rightarrow> e
                        | vs \<Rightarrow> Some (error_record ev (last vs)))
            | Some x \<Rightarrow> Some x)"
    and nc': "(\<forall>event \<in> set evs. \<not> has_chunk event) \<longrightarrow> nc' = []" by blast
  have e: "(case last_error evs of
              None \<Rightarrow> (case variants_of ev of [] \<Rightarrow> e
                        | vs \<Rightarrow> Some (error_record ev (last vs)))
            | Some x \<Rightarrow> Some x) =
           (case last_error (ev # evs) of None \<Rightarrow> e | Some x \<Rightarrow> Some x)"
    by (simp add: last_error_Cons split: option.splits list.splits)
  from f2 have "result_fields result' (t @ concat (map event_payload (ev # evs)))
           (cs @ (nc @ nc')) (ts @ (nt @ nt'))
           (case last_error (ev # evs) of None \<Rightarrow> e | Some x \<Rightarrow> Some x)"
    unfolding e by simp
  moreover from nc nc' have "(\<forall>event \<in> set (ev # evs). \<not> has_chunk event) \<longrightarrow> nc @ nc' = []"
    by simp
  ultimately show ?case by blast
qed

lemma initial_fields: "result_fields initial_result [] [] [] None"
  by (simp add: result_fields_def initial_result_def)

lemma copy_key_fields:
  assumes "copy_key k src dst = Inr dst'" "result_fields dst t cs ts e"
    and "k \<notin> {''text'', ''citations'', ''traces'', ''error''}"
  shows "result_fields dst' t cs ts e"
  using assms(2,3) copy_key_other [OF assms(1)] by (auto simp: result_fields_def)

lemma process_body_fields:
  assumes "process_body response = Inr result"
  shows "\<exists>events cs ts. completion_events response = Inr events \<and>
           result_fields result (concat (map event_payload events)) cs ts (last_error events) \<and>
           ((\<forall>event \<in> set events. \<not> has_chunk event) \<longrightarrow> cs = [])"
proof -
  from assms obtain events r1 r2 where
    ev: "completion_events response = Inr events"
    and r1: "for_each process_event initial_result events = Inr r1"
    and r2: "copy_key ''contentType'' response r1 = Inr r2"
    and r3: "copy_key ''memoryId'' response r2 = Inr result"
    by (auto simp: process_body_def pybind_eq_Inr)
  from stream_fields [OF r1 initial_fields] obtain nc nt where
    f1: "result_fields r1 (concat (map event_payload events)) nc nt (last_error events)"
    and nc: "(\<forall>event \<in> set events. \<not> has_chunk event) \<longrightarrow> nc = []"
    by (auto split: option.splits)
  have "result_fields r2 (concat (map event_payload events)) nc nt (last_error events)"
    by (rule copy_key_fields [OF r2 f1]) simp
  then have "result_fields result (concat (map event_payload events)) nc nt (last_error events)"
    by (rule copy_key_fields [OF r3]) simp
  with ev nc show ?thesis by blast
qed


lemma process_body_returns:
  "process_body response = Inr result \<Longrightarrow> process_agent_response str response = result"
  by (simp add: process_agent_response_def)

lemma process_body_empty:
  assumes "process_body response = Inr result" "completion_events response = Inr []"
  shows "result_fields result [] [] [] None"
proof -
  from assms obtain r2 where
    r2: "copy_key ''contentType'' response initial_result = Inr r2"
    and r3: "copy_key ''memoryId'' response r2 = Inr result"
    by (auto simp: process_body_def pybind_eq_Inr)
  have "result_fields r2 [] [] [] None"
    by (rule copy_key_fields [OF r2 initial_fields]) simp
  then show ?thesis
    by (rule copy_key_fields [OF r3]) simp
qed

lemma last_error_None_iff:
  "last_error events = None \<longleftrightarrow> (\<forall>event \<in> set events. variants_of event = [])"
proof -
  have "last_error events = None \<longleftrightarrow> filter (\<lambda>event. variants_of event \<noteq> []) events = []"
    by (simp add: last_error_def split: list.splits)
  then show ?thesis by (simp add: filter_empty_conv)
qed

lemma event_payload_no_chunk: "\<not> has_chunk event \<Longrightarrow> event_payload event = []"
  by (cases event) (auto simp: has_chunk_def carries_def event_payload_def)

lemma concat_payload_filter:
  "concat (map event_payload (filter has_chunk events)) = concat (map event_payload events)"
  by (induction events) (simp_all add: event_payload_no_chunk)






lemma for_each_cong_set:
  "(\<And>s x. x \<in> set xs \<Longrightarrow> f s x = g s x) \<Longrightarrow> for_each f s xs = for_each g s xs"
  by (induction xs arbitrary: s) (auto split: sum.splits)

lemma other_key_same:
  assumes "k \<noteq> k0"
  shows "contains k (PDict ((k0, c) # ev)) = contains k (PDict ((k0, c') # ev))"
    and "getitem (PDict ((k0, c) # ev)) k = getitem (PDict ((k0, c') # ev)) k"
  using assms by auto

lemma copy_key_other_same:
  assumes "k \<noteq> k0"
  shows "copy_key k (PDict ((k0, c) # ev)) dst = copy_key k (PDict ((k0, c') # ev)) dst"
  unfolding copy_key_def by (simp only: other_key_same [OF assms, of c ev c'])

lemma process_trace_same:
  "process_trace result (PDict ((''chunk'', c) # ev)) =
   process_trace result (PDict ((''chunk'', c') # ev))"
proof -
  have k: "''trace'' \<noteq> ''chunk''" by simp
  show ?thesis
    unfolding process_trace_def by (simp only: other_key_same [OF k, of c ev c'])
qed

lemma process_error_same:
  assumes "error_type \<noteq> ''chunk''"
  shows "process_error (PDict ((''chunk'', c) # ev)) result error_type =
         process_error (PDict ((''chunk'', c') # ev)) result error_type"
  unfolding process_error_def by (simp only: other_key_same [OF assms, of c ev c'])

lemma chunk_not_error_type: "x \<in> set error_types \<Longrightarrow> x \<noteq> ''chunk''"
  by (auto simp: error_types_def)

lemma process_chunk_same:
  assumes "result_fields result t cs ts e"
  shows "process_chunk result (PDict ((''chunk'', PDict [(''bytes'', PBytes b)]) # ev)) =
         process_chunk result (PDict ((''chunk'', PObj [(''bytes'', PBytes b)]) # ev))"
proof -
  from assms have t: "map_of result ''text'' = Some (PStr t)"
    by (simp add: result_fields_def)
  have d: "process_chunk_text result (PDict [(''bytes'', PBytes b)]) =
           pybind (decode (PBytes b)) (\<lambda>chunk_text. add_text result ''text'' chunk_text)"
    by (simp add: process_chunk_text_def attr_bytes_def)
  have o: "process_chunk_text result (PObj [(''bytes'', PBytes b)]) =
           pybind (decode (PBytes b)) (\<lambda>chunk_text. add_text result ''text'' chunk_text)"
  proof (cases "b = []")
    case True
    with t show ?thesis
      by (simp add: process_chunk_text_def attr_bytes_def add_text_def update_triv)
  next
    case False
    then show ?thesis by (simp add: process_chunk_text_def attr_bytes_def)
  qed
  have c: "\<And>r. process_chunk_citations r (PDict [(''bytes'', PBytes b)]) =
             process_chunk_citations r (PObj [(''bytes'', PBytes b)])"
    by (simp add: process_chunk_citations_def)
  have a: "\<And>r. process_attr_citations r (PDict [(''bytes'', PBytes b)]) =
             process_attr_citations r (PObj [(''bytes'', PBytes b)])"
    by (simp add: process_attr_citations_def)
  show ?thesis
    by (simp add: process_chunk_def d o c a)
qed

lemma process_event_same:
  assumes "result_fields result t cs ts e"
  shows "process_event result (PDict ((''chunk'', PDict [(''bytes'', PBytes b)]) # ev)) =
         process_event result (PDict ((''chunk'', PObj [(''bytes'', PBytes b)]) # ev))"
proof -
  have "\<And>r. for_each (process_error (PDict ((''chunk'', PDict [(''bytes'', PBytes b)]) # ev))) r error_types =
             for_each (process_error (PDict ((''chunk'', PObj [(''bytes'', PBytes b)]) # ev))) r error_types"
    by (rule for_each_cong_set) (rule process_error_same, rule chunk_not_error_type)
  then show ?thesis
    unfolding process_event_def
    by (simp only: process_chunk_same [OF assms]
        process_trace_same [of _ "PDict [(''bytes'', PBytes b)]" ev "PObj [(''bytes'', PBytes b)]"])
qed

lemma stream_same:
  assumes "result_fields result t cs ts e"
  shows "for_each process_event result
           (pre @ PDict ((''chunk'', PDict [(''bytes'', PBytes b)]) # ev) # post) =
         for_each process_event result
           (pre @ PDict ((''chunk'', PObj [(''bytes'', PBytes b)]) # ev) # post)"
proof (cases "for_each process_event result pre")
  case (Inl err)
  then show ?thesis by (simp add: for_each_append)
next
  case (Inr r1)
  from stream_fields [OF Inr assms] obtain t1 cs1 ts1 e1 where "result_fields r1 t1 cs1 ts1 e1"
    by blast
  from process_event_same [OF this] Inr show ?thesis
    by (simp add: for_each_append)
qed








section \<open>Properties of the wait for the ingestion job\<close>

declare wait_for_job.simps [simp del]

lemma polls_world_after: "polls (world_after latency w k) = polls w + k"
  by (induction k arbitrary: w) simp_all

lemma now_world_after:
  "now (world_after latency w k) = now w + (\<Sum>i<k. int (latency (polls w + i)) + 10)"
proof (induction k arbitrary: w)
  case 0
  then show ?case by simp
next
  case (Suc k)
  show ?case
    by (simp add: Suc.IH sum.lessThan_Suc_shift del: sum.lessThan_Suc)
qed

lemma wait_for_job_skip:
  assumes "\<forall>i<k. \<not> final_status (status (polls w + i)) \<and>
             now (world_after latency w i) - start_time < max_wait_time"
  shows "wait_for_job status latency max_wait_time start_time w =
         wait_for_job status latency max_wait_time start_time (world_after latency w k)"
  using assms
proof (induction k arbitrary: w)
  case 0
  then show ?case by simp
next
  case (Suc k)
  let ?w1 = "\<lparr>now = now w + int (latency (polls w)) + 10, polls = Suc (polls w)\<rparr>"
  from Suc.prems have here: "\<not> final_status (status (polls w))" "now w - start_time < max_wait_time"
    by force+
  have "\<forall>i<k. \<not> final_status (status (polls ?w1 + i)) \<and>
           now (world_after latency ?w1 i) - start_time < max_wait_time"
  proof (intro allI impI)
    fix i assume "i < k"
    then have "Suc i < Suc k" by simp
    with Suc.prems have "\<not> final_status (status (polls w + Suc i)) \<and>
           now (world_after latency w (Suc i)) - start_time < max_wait_time"
      by blast
    then show "\<not> final_status (status (polls ?w1 + i)) \<and>
           now (world_after latency ?w1 i) - start_time < max_wait_time"
      by simp
  qed
  from Suc.IH [OF this]
  have "wait_for_job status latency max_wait_time start_time ?w1 =
        wait_for_job status latency max_wait_time start_time (world_after latency w (Suc k))"
    by simp
  moreover from here
  have "wait_for_job status latency max_wait_time start_time w =
        wait_for_job status latency max_wait_time start_time ?w1"
    by (subst wait_for_job.simps) (simp add: final_status_def)
  ultimately show ?case by simp
qed

lemma elapsed_at_mono: "i \<le> k \<Longrightarrow> elapsed_at latency i \<le> elapsed_at latency k"
  unfolding elapsed_at_def
  by (rule sum_mono2) auto

lemma world_after_start:
  "world_after latency \<lparr>now = t0, polls = 0\<rparr> k = \<lparr>now = t0 + elapsed_at latency k, polls = k\<rparr>"
proof -
  have "now (world_after latency \<lparr>now = t0, polls = 0\<rparr> k) = t0 + elapsed_at latency k"
    by (simp add: now_world_after elapsed_at_def)
  moreover have "polls (world_after latency \<lparr>now = t0, polls = 0\<rparr> k) = k"
    by (simp add: polls_world_after)
  ultimately show ?thesis by simp
qed

lemma wait_for_job_reaches:
  assumes "\<forall>i<k. \<not> final_status (status i)"
    and "\<forall>i<k. elapsed_at latency i < max_wait_time"
  shows "wait_for_job status latency max_wait_time t0 \<lparr>now = t0, polls = 0\<rparr> =
         wait_for_job status latency max_wait_time t0 \<lparr>now = t0 + elapsed_at latency k, polls = k\<rparr>"
proof -
  have "\<forall>i<k. \<not> final_status (status (polls \<lparr>now = t0, polls = 0\<rparr> + i)) \<and>
          now (world_after latency \<lparr>now = t0, polls = 0\<rparr> i) - t0 < max_wait_time"
    using assms by (simp add: world_after_start)
  from wait_for_job_skip [OF this] show ?thesis
    by (simp add: world_after_start)
qed

lemma elapsed_at_instant: "elapsed_at instant k = 10 * int k"
  by (simp add: elapsed_at_def instant_def)

section \<open>The claims\<close>

subsection \<open>The response normalizer\<close>

text \<open>
  C1 (as amended). When the body of \<open>process_agent_response\<close> raises nothing, so that
  the fallback record is not returned, the record returned has the three keys
  \<open>text\<close> (a string), \<open>citations\<close> (a list) and \<open>traces\<close> (a list), all three empty
  for an empty stream. The key \<open>error\<close> is a fourth key only when some event of the
  stream carries one of the ten error variants; it is absent otherwise, and so for the
  empty stream.
\<close>

theorem normalize_keys:
  assumes "process_body response = Inr result"
  shows "process_agent_response str response = result \<and>
    (\<exists>events t cs ts.
       completion_events response = Inr events \<and>
       map_of result ''text'' = Some (PStr t) \<and>
       map_of result ''citations'' = Some (PList cs) \<and>
       map_of result ''traces'' = Some (PList ts) \<and>
       (map_of result ''error'' = None \<longleftrightarrow> list_all (\<lambda>event. variants_of event = []) events) \<and>
       (events = [] \<longrightarrow> t = [] \<and> cs = [] \<and> ts = []))"
proof -
  from process_body_fields [OF assms] obtain events cs ts where
    ev: "completion_events response = Inr events"
    and f: "result_fields result (concat (map event_payload events)) cs ts (last_error events)"
    by blast
  have "events = [] \<longrightarrow> cs = [] \<and> ts = []"
    using process_body_empty [OF assms] ev f by (auto simp: result_fields_def)
  with ev f show ?thesis
    using process_body_returns [OF assms]
    by (auto simp: result_fields_def last_error_None_iff list_all_iff)
qed

theorem normalize_keys_witness:
  "process_body (PDict [(''completion'', PList [PDict [(''chunk'', PDict [(''bytes'', PBytes ''Hel'')])],
      PDict [(''throttlingException'', PDict [(''message'', PStr ''rate exceeded'')])]])]) =
    Inr [(''text'', PStr ''Hel''), (''citations'', PList []), (''traces'', PList []),
         (''error'', PDict [(''type'', PStr ''throttlingException''),
                            (''message'', PStr ''rate exceeded'')])] \<and>
   process_agent_response exception_class
     (PDict [(''completion'', PList [PDict [(''chunk'', PDict [(''bytes'', PBytes ''Hel'')])],
      PDict [(''throttlingException'', PDict [(''message'', PStr ''rate exceeded'')])]])]) =
    [(''text'', PStr ''Hel''), (''citations'', PList []), (''traces'', PList []),
         (''error'', PDict [(''type'', PStr ''throttlingException''),
                            (''message'', PStr ''rate exceeded'')])]"
proof -
  have b: "process_body (PDict [(''completion'', PList [PDict [(''chunk'', PDict [(''bytes'', PBytes ''Hel'')])],
      PDict [(''throttlingException'', PDict [(''message'', PStr ''rate exceeded'')])]])]) =
    Inr [(''text'', PStr ''Hel''), (''citations'', PList []), (''traces'', PList []),
         (''error'', PDict [(''type'', PStr ''throttlingException''),
                            (''message'', PStr ''rate exceeded'')])]"
    by code_simp
  from normalize_keys [OF b, of exception_class] b show ?thesis by simp
qed

text \<open>
  C1 as stated fails: the record returned for the empty stream has no \<open>error\<close> key.
\<close>

theorem C1_counterexample:
  "process_body (PDict [(''completion'', PList [])]) =
     Inr [(''text'', PStr []), (''citations'', PList []), (''traces'', PList [])] \<and>
   process_agent_response exception_class (PDict [(''completion'', PList [])]) =
     [(''text'', PStr []), (''citations'', PList []), (''traces'', PList [])] \<and>
   map_of (process_agent_response exception_class (PDict [(''completion'', PList [])])) ''error''
     = None"
  by code_simp

text \<open>
  C2 (as amended). An exception that escapes the body of the outer \<open>try\<close> never
  reaches the caller: the record returned then has the fixed text and the message of
  the exception, and a record with a \<open>text\<close> string is returned for every input.
  An exception raised while the citations of an object chunk are read is caught by
  the inner handler instead: the result is left as it was and the stream is processed
  further.
\<close>

theorem fallback_on_exception:
  "(process_body response = Inl e \<longrightarrow>
      process_agent_response str response =
        [(''text'', PStr ''Error processing agent response''), (''error'', PStr (str e))]) \<and>
   (attrs chunk ''attribution'' = Some attribution \<longrightarrow>
    attr_citations_try result attribution = Inl e' \<longrightarrow>
      process_attr_citations result chunk = result) \<and>
   (\<exists>t. map_of (process_agent_response str response) ''text'' = Some (PStr t))"
proof -
  have "\<exists>t. map_of (process_agent_response str response) ''text'' = Some (PStr t)"
  proof (cases "process_body response")
    case (Inl err)
    then show ?thesis by (simp add: process_agent_response_def fallback_def)
  next
    case (Inr r)
    from process_body_fields [OF Inr] show ?thesis
      by (auto simp: process_agent_response_def Inr result_fields_def)
  qed
  then show ?thesis
    by (simp add: process_agent_response_def fallback_def process_attr_citations_def)
qed

theorem fallback_on_exception_witness:
  "process_body (PDict [(''completion'', PList [PDict [(''chunk'', PDict [(''bytes'', PBytes [CHR 0xFF])])]])])
     = Inl (UnicodeDecodeError [CHR 0xFF]) \<and>
   process_agent_response exception_class
     (PDict [(''completion'', PList [PDict [(''chunk'', PDict [(''bytes'', PBytes [CHR 0xFF])])]])])
     = [(''text'', PStr ''Error processing agent response''),
        (''error'', PStr ''UnicodeDecodeError'')] \<and>
   attrs (PObj [(''attribution'', PObj [(''citations'', PInt 5)])]) ''attribution''
     = Some (PObj [(''citations'', PInt 5)]) \<and>
   attr_citations_try initial_result (PObj [(''citations'', PInt 5)])
     = Inl (TypeError ''iter'' (PInt 5)) \<and>
   process_attr_citations initial_result (PObj [(''attribution'', PObj [(''citations'', PInt 5)])])
     = initial_result"
proof -
  have b: "process_body (PDict [(''completion'', PList [PDict [(''chunk'', PDict [(''bytes'', PBytes [CHR 0xFF])])]])])
     = Inl (UnicodeDecodeError [CHR 0xFF])"
    by code_simp
  have a: "attrs (PObj [(''attribution'', PObj [(''citations'', PInt 5)])]) ''attribution''
     = Some (PObj [(''citations'', PInt 5)])"
    by simp
  have t: "attr_citations_try initial_result (PObj [(''citations'', PInt 5)])
     = Inl (TypeError ''iter'' (PInt 5))"
    by (simp add: attr_citations_try_def)
  from fallback_on_exception
    [of "PDict [(''completion'', PList [PDict [(''chunk'', PDict [(''bytes'', PBytes [CHR 0xFF])])]])]"
        "UnicodeDecodeError [CHR 0xFF]" exception_class
        "PObj [(''attribution'', PObj [(''citations'', PInt 5)])]"
        "PObj [(''citations'', PInt 5)]" initial_result "TypeError ''iter'' (PInt 5)"]
    a b t
  show ?thesis by (simp add: exception_class_def)
qed

text \<open>
  C2 as stated fails: an exception is raised while the stream is processed (the
  attribute \<open>citations\<close> of the attribution of an object chunk is a number, which the
  \<open>for\<close> loop cannot iterate), and the record returned is the ordinary one, not the
  fallback record.
\<close>

theorem C2_counterexample:
  "attr_citations_try initial_result (PObj [(''citations'', PInt 5)])
     = Inl (TypeError ''iter'' (PInt 5)) \<and>
   process_agent_response exception_class
     (PDict [(''completion'',
        PList [PDict [(''chunk'', PObj [(''attribution'', PObj [(''citations'', PInt 5)])])]])])
     = [(''text'', PStr []), (''citations'', PList []), (''traces'', PList [])]"
  by code_simp

text \<open>
  C6 (as amended). When the body raises nothing, the \<open>text\<close> of the record returned is
  the concatenation, in stream order, of the decoded payloads of the events that have
  a chunk; when no event has a chunk, \<open>text\<close> is the empty string and \<open>citations\<close> the
  empty list.
\<close>

theorem text_is_concatenation:
  assumes "process_body response = Inr result"
  shows "\<exists>events.
     completion_events response = Inr events \<and>
     map_of (process_agent_response str response) ''text'' =
       Some (PStr (concat (map event_payload (filter has_chunk events)))) \<and>
     (filter has_chunk events = [] \<longrightarrow>
        map_of (process_agent_response str response) ''text'' = Some (PStr []) \<and>
        map_of (process_agent_response str response) ''citations'' = Some (PList []))"
proof -
  from process_body_fields [OF assms] obtain events cs ts where
    ev: "completion_events response = Inr events"
    and f: "result_fields result (concat (map event_payload events)) cs ts (last_error events)"
    and cs: "(\<forall>event \<in> set events. \<not> has_chunk event) \<longrightarrow> cs = []"
    by blast
  have r: "process_agent_response str response = result"
    by (rule process_body_returns [OF assms])
  have t: "map_of result ''text'' = Some (PStr (concat (map event_payload (filter has_chunk events))))"
    using f by (simp add: result_fields_def concat_payload_filter)
  have c: "filter has_chunk events = [] \<longrightarrow> map_of result ''citations'' = Some (PList [])"
    using f cs by (auto simp: result_fields_def filter_empty_conv)
  have t0: "filter has_chunk events = [] \<longrightarrow> map_of result ''text'' = Some (PStr [])"
    using t by simp
  show ?thesis unfolding r using ev t t0 c by blast
qed

theorem text_is_concatenation_witness:
  "process_body (PDict [(''completion'',
      PList [PDict [(''chunk'', PDict [(''bytes'', PBytes ''Hel'')])],
             PDict [(''trace'', PDict [(''agentId'', PStr ''A1'')])],
             PDict [(''chunk'', PDict [(''text'', PStr ''lo'')])]])])
    = Inr [(''text'', PStr ''Hello''), (''citations'', PList []),
           (''traces'', PList [PDict [(''agentId'', PStr ''A1'')]])] \<and>
   map_of (process_agent_response exception_class (PDict [(''completion'',
      PList [PDict [(''chunk'', PDict [(''bytes'', PBytes ''Hel'')])],
             PDict [(''trace'', PDict [(''agentId'', PStr ''A1'')])],
             PDict [(''chunk'', PDict [(''text'', PStr ''lo'')])]])])) ''text''
    = Some (PStr ''Hello'')"
proof -
  have b: "process_body (PDict [(''completion'',
      PList [PDict [(''chunk'', PDict [(''bytes'', PBytes ''Hel'')])],
             PDict [(''trace'', PDict [(''agentId'', PStr ''A1'')])],
             PDict [(''chunk'', PDict [(''text'', PStr ''lo'')])]])])
    = Inr [(''text'', PStr ''Hello''), (''citations'', PList []),
           (''traces'', PList [PDict [(''agentId'', PStr ''A1'')]])]"
    by code_simp
  have c: "completion_events (PDict [(''completion'',
      PList [PDict [(''chunk'', PDict [(''bytes'', PBytes ''Hel'')])],
             PDict [(''trace'', PDict [(''agentId'', PStr ''A1'')])],
             PDict [(''chunk'', PDict [(''text'', PStr ''lo'')])]])])
    = Inr [PDict [(''chunk'', PDict [(''bytes'', PBytes ''Hel'')])],
             PDict [(''trace'', PDict [(''agentId'', PStr ''A1'')])],
             PDict [(''chunk'', PDict [(''text'', PStr ''lo'')])]]"
    by code_simp
  have p: "concat (map event_payload (filter has_chunk
            [PDict [(''chunk'', PDict [(''bytes'', PBytes ''Hel'')])],
             PDict [(''trace'', PDict [(''agentId'', PStr ''A1'')])],
             PDict [(''chunk'', PDict [(''text'', PStr ''lo'')])]])) = ''Hello''"
    by code_simp
  from text_is_concatenation [OF b, of exception_class] b c p show ?thesis by simp
qed

text \<open>
  C6 as stated fails: a stream with no chunk event whose only event has a trace that
  is \<open>None\<close> makes the body raise, and the record returned has the fixed text of the
  fallback and no \<open>citations\<close> key.
\<close>

theorem C6_counterexample:
  "filter has_chunk [PDict [(''trace'', PNone)]] = [] \<and>
   map_of (process_agent_response exception_class
      (PDict [(''completion'', PList [PDict [(''trace'', PNone)]])])) ''text''
     = Some (PStr ''Error processing agent response'') \<and>
   map_of (process_agent_response exception_class
      (PDict [(''completion'', PList [PDict [(''trace'', PNone)]])])) ''citations''
     = None"
  by code_simp

text \<open>
  C7. A chunk delivered as the mapping \<open>{bytes: b}\<close> and a chunk delivered as an object
  whose attribute \<open>bytes\<close> holds the same \<open>b\<close> give the same record, whatever the bytes,
  the other keys of the event, the events before and after, and the rest of the
  response.
\<close>

theorem representation_transparency:
  "process_agent_response str
     (PDict ((''completion'',
        PList (pre @ PDict ((''chunk'', PDict [(''bytes'', PBytes b)]) # event) # post)) # envelope)) =
   process_agent_response str
     (PDict ((''completion'',
        PList (pre @ PDict ((''chunk'', PObj [(''bytes'', PBytes b)]) # event) # post)) # envelope))"
proof -
  let ?c1 = "PList (pre @ PDict ((''chunk'', PDict [(''bytes'', PBytes b)]) # event) # post)"
  let ?c2 = "PList (pre @ PDict ((''chunk'', PObj [(''bytes'', PBytes b)]) # event) # post)"
  have ct: "\<And>dst. copy_key ''contentType'' (PDict ((''completion'', ?c1) # envelope)) dst =
                   copy_key ''contentType'' (PDict ((''completion'', ?c2) # envelope)) dst"
    by (rule copy_key_other_same) simp
  have mi: "copy_key ''memoryId'' (PDict ((''completion'', ?c1) # envelope)) =
            copy_key ''memoryId'' (PDict ((''completion'', ?c2) # envelope))"
    by (rule ext, rule copy_key_other_same) simp
  have "process_body (PDict ((''completion'', ?c1) # envelope)) =
        process_body (PDict ((''completion'', ?c2) # envelope))"
    unfolding process_body_def
    by (simp add: completion_events_def stream_same [OF initial_fields] ct mi)
  then show ?thesis
    by (simp only: process_agent_response_def)
qed

text \<open>
  C8 (as amended). When the body raises nothing, the \<open>error\<close> of the record returned is
  the record \<open>{type, message}\<close> of the last event of the stream that carries an error
  variant (of the last variant of the handler's list, when that event carries several),
  with the message \<open>Unknown error\<close> when the event gives none; it is absent
  when no event carries a variant. An error event does not stop the stream: \<open>text\<close>
  holds the payloads of all events, those after it included.
\<close>

theorem error_is_last_variant:
  assumes "process_body response = Inr result"
  shows "\<exists>events.
     completion_events response = Inr events \<and>
     map_of (process_agent_response str response) ''error'' = last_error events \<and>
     map_of (process_agent_response str response) ''text'' =
       Some (PStr (concat (map event_payload events)))"
proof -
  from process_body_fields [OF assms] obtain events cs ts where
    "completion_events response = Inr events"
    "result_fields result (concat (map event_payload events)) cs ts (last_error events)"
    by blast
  then show ?thesis
    using process_body_returns [OF assms] by (auto simp: result_fields_def)
qed

theorem error_is_last_variant_witness:
  "process_body (PDict [(''completion'',
      PList [PDict [(''throttlingException'', PDict [(''message'', PStr ''rate exceeded'')])],
             PDict [(''validationException'', PDict [])],
             PDict [(''chunk'', PDict [(''text'', PStr ''after'')])]])])
    = Inr [(''text'', PStr ''after''), (''citations'', PList []), (''traces'', PList []),
           (''error'', PDict [(''type'', PStr ''validationException''),
                              (''message'', PStr ''Unknown error'')])] \<and>
   map_of (process_agent_response exception_class (PDict [(''completion'',
      PList [PDict [(''throttlingException'', PDict [(''message'', PStr ''rate exceeded'')])],
             PDict [(''validationException'', PDict [])],
             PDict [(''chunk'', PDict [(''text'', PStr ''after'')])]])])) ''error''
    = Some (PDict [(''type'', PStr ''validationException''),
                   (''message'', PStr ''Unknown error'')])"
proof -
  have b: "process_body (PDict [(''completion'',
      PList [PDict [(''throttlingException'', PDict [(''message'', PStr ''rate exceeded'')])],
             PDict [(''validationException'', PDict [])],
             PDict [(''chunk'', PDict [(''text'', PStr ''after'')])]])])
    = Inr [(''text'', PStr ''after''), (''citations'', PList []), (''traces'', PList []),
           (''error'', PDict [(''type'', PStr ''validationException''),
                              (''message'', PStr ''Unknown error'')])]"
    by code_simp
  have c: "completion_events (PDict [(''completion'',
      PList [PDict [(''throttlingException'', PDict [(''message'', PStr ''rate exceeded'')])],
             PDict [(''validationException'', PDict [])],
             PDict [(''chunk'', PDict [(''text'', PStr ''after'')])]])])
    = Inr [PDict [(''throttlingException'', PDict [(''message'', PStr ''rate exceeded'')])],
             PDict [(''validationException'', PDict [])],
             PDict [(''chunk'', PDict [(''text'', PStr ''after'')])]]"
    by code_simp
  have l: "last_error [PDict [(''throttlingException'', PDict [(''message'', PStr ''rate exceeded'')])],
             PDict [(''validationException'', PDict [])],
             PDict [(''chunk'', PDict [(''text'', PStr ''after'')])]]
     = Some (PDict [(''type'', PStr ''validationException''),
                   (''message'', PStr ''Unknown error'')])"
    by code_simp
  from error_is_last_variant [OF b, of exception_class] b c l show ?thesis by simp
qed

text \<open>
  C8 as stated fails: when an event after the error event makes the body raise (here a
  chunk whose bytes are not UTF-8), the \<open>error\<close> of the record returned is the message
  of that exception, not the record of the error event.
\<close>

theorem C8_counterexample:
  "last_error [PDict [(''throttlingException'', PDict [(''message'', PStr ''rate exceeded'')])],
               PDict [(''chunk'', PDict [(''bytes'', PBytes [CHR 0xFF])])]]
     = Some (PDict [(''type'', PStr ''throttlingException''),
                    (''message'', PStr ''rate exceeded'')]) \<and>
   map_of (process_agent_response exception_class (PDict [(''completion'',
      PList [PDict [(''throttlingException'', PDict [(''message'', PStr ''rate exceeded'')])],
             PDict [(''chunk'', PDict [(''bytes'', PBytes [CHR 0xFF])])]])])) ''error''
     = Some (PStr ''UnicodeDecodeError'')"
  by code_simp




text \<open>
  C10. For a chunk that is a mapping whose \<open>bytes\<close> entry is not of type \<open>bytes\<close>,
  the payload step returns the result unchanged and raises nothing, whether or not the
  mapping has a \<open>text\<close> entry.
\<close>

theorem non_bytes_shadows_text:
  assumes "map_of chunk ''bytes'' = Some v" "\<not> isinstance_bytes v"
  shows "process_chunk_text result (PDict chunk) = Inr result"
  using assms
  by (simp add: process_chunk_text_def attr_bytes_def contains_dict del: contains.simps)

theorem non_bytes_shadows_text_witness:
  "map_of [(''bytes'', PStr ''abc''), (''text'', PStr ''hello'')] ''bytes'' = Some (PStr ''abc'') \<and>
   \<not> isinstance_bytes (PStr ''abc'') \<and>
   process_chunk_text initial_result (PDict [(''bytes'', PStr ''abc''), (''text'', PStr ''hello'')])
     = Inr initial_result"
proof -
  have h1: "map_of [(''bytes'', PStr ''abc''), (''text'', PStr ''hello'')] ''bytes'' = Some (PStr ''abc'')"
    by simp
  have h2: "\<not> isinstance_bytes (PStr ''abc'')" by simp
  from non_bytes_shadows_text [OF h1 h2, of initial_result] h1 h2 show ?thesis by simp
qed

subsection \<open>The retrying query executor\<close>

text \<open>
  C3. When the first call raises a \<open>ClientError\<close> that passes the test for an invalid
  session id and the parameters hold a \<open>sessionId\<close>, exactly one more call is made,
  with the \<open>sessionId\<close> removed, and its response is returned with the flag \<open>True\<close>
  (its exception is raised when it fails). When the exception passes the test but the
  parameters hold no \<open>sessionId\<close>, or when it does not pass the test, it is raised
  unchanged after the one call. A first call that succeeds is returned with the flag
  \<open>False\<close>. The test holds exactly for the code \<open>ValidationException\<close> with a message that
  contains both \<open>is not valid\<close> and \<open>Session with Id\<close>.
\<close>

theorem retry_once_without_session:
  "(service calls params = Inl e \<and> invalid_session e \<and> ''sessionId'' \<in> fst ` set params \<longrightarrow>
      perform_retrieve_and_generate service calls params =
        ((case service (calls @ [params]) (AList.delete ''sessionId'' params) of
            Inr response \<Rightarrow> Inr (response, True)
          | Inl e2 \<Rightarrow> Inl e2),
         calls @ [params, AList.delete ''sessionId'' params],
         AList.delete ''sessionId'' params)) \<and>
   (service calls params = Inl e \<and>
      (\<not> invalid_session e \<or> ''sessionId'' \<notin> fst ` set params) \<longrightarrow>
      perform_retrieve_and_generate service calls params = (Inl e, calls @ [params], params)) \<and>
   (service calls params = Inr response \<longrightarrow>
      perform_retrieve_and_generate service calls params =
        (Inr (response, False), calls @ [params], params)) \<and>
   invalid_session (ClientError (Some code) (Some message)) =
     (code = ''ValidationException'' \<and> sublist ''is not valid'' message \<and>
      sublist ''Session with Id'' message) \<and>
   \<not> invalid_session (OtherException x)"
proof -
  have "invalid_session (ClientError (Some code) (Some message)) =
     (code = ''ValidationException'' \<and> sublist ''is not valid'' message \<and>
      sublist ''Session with Id'' message)"
    and "\<not> invalid_session (OtherException x)"
    by (simp_all add: invalid_session_def)
  then show ?thesis
    by (auto simp: perform_retrieve_and_generate_def retrieve_and_generate_def Let_def
        split: sum.splits)
qed

theorem retry_once_without_session_witness:
  "stale_session_service []
       [(''input'', PDict [(''text'', PStr ''q'')]), (''sessionId'', PStr ''abc123'')]
     = Inl (ClientError (Some ''ValidationException'') (Some ''Session with Id abc123 is not valid'')) \<and>
   invalid_session
     (ClientError (Some ''ValidationException'') (Some ''Session with Id abc123 is not valid'')) \<and>
   perform_retrieve_and_generate stale_session_service []
       [(''input'', PDict [(''text'', PStr ''q'')]), (''sessionId'', PStr ''abc123'')]
     = (Inr (PDict [(''sessionId'', PStr ''new-session'')], True),
        [[(''input'', PDict [(''text'', PStr ''q'')]), (''sessionId'', PStr ''abc123'')],
         [(''input'', PDict [(''text'', PStr ''q'')])]],
        [(''input'', PDict [(''text'', PStr ''q'')])]) \<and>
   perform_retrieve_and_generate
       (rejecting_service
          (ClientError (Some ''ValidationException'') (Some ''Session with Id abc123 is not valid'')))
       [] [(''input'', PDict [(''text'', PStr ''q'')])]
     = (Inl (ClientError (Some ''ValidationException'') (Some ''Session with Id abc123 is not valid'')),
        [[(''input'', PDict [(''text'', PStr ''q'')])]],
        [(''input'', PDict [(''text'', PStr ''q'')])]) \<and>
   perform_retrieve_and_generate
       (rejecting_service (ClientError (Some ''ThrottlingException'') (Some ''Rate exceeded'')))
       [] [(''input'', PDict [(''text'', PStr ''q'')]), (''sessionId'', PStr ''abc123'')]
     = (Inl (ClientError (Some ''ThrottlingException'') (Some ''Rate exceeded'')),
        [[(''input'', PDict [(''text'', PStr ''q'')]), (''sessionId'', PStr ''abc123'')]],
        [(''input'', PDict [(''text'', PStr ''q'')]), (''sessionId'', PStr ''abc123'')]) \<and>
   perform_retrieve_and_generate stale_session_service []
       [(''input'', PDict [(''text'', PStr ''q'')])]
     = (Inr (PDict [(''sessionId'', PStr ''new-session'')], False),
        [[(''input'', PDict [(''text'', PStr ''q'')])]],
        [(''input'', PDict [(''text'', PStr ''q'')])])"
proof -
  let ?stale = "ClientError (Some ''ValidationException'') (Some ''Session with Id abc123 is not valid'')"
  let ?busy = "ClientError (Some ''ThrottlingException'') (Some ''Rate exceeded'')"
  let ?p = "[(''input'', PDict [(''text'', PStr ''q'')])]"
  let ?ps = "[(''input'', PDict [(''text'', PStr ''q'')]), (''sessionId'', PStr ''abc123'')]"
  have s1: "stale_session_service [] ?ps = Inl ?stale"
    by (simp add: stale_session_service_def)
  have s2: "stale_session_service [?ps] ?p = Inr (PDict [(''sessionId'', PStr ''new-session'')])"
    by (simp add: stale_session_service_def)
  have s3: "stale_session_service [] ?p = Inr (PDict [(''sessionId'', PStr ''new-session'')])"
    by (simp add: stale_session_service_def)
  have i1: "invalid_session ?stale" by code_simp
  have i2: "\<not> invalid_session ?busy" by code_simp
  have d: "AList.delete ''sessionId'' ?ps = ?p" by (simp add: AList.delete_eq)
  have k1: "''sessionId'' \<in> fst ` set ?ps" by simp
  have k2: "''sessionId'' \<notin> fst ` set ?p" by simp
  note a = retry_once_without_session [of stale_session_service "[]" ?ps ?stale]
  note b = retry_once_without_session [of "rejecting_service ?stale" "[]" ?p ?stale]
  note c = retry_once_without_session [of "rejecting_service ?busy" "[]" ?ps ?busy]
  note e = retry_once_without_session [of stale_session_service "[]" ?p _
      "PDict [(''sessionId'', PStr ''new-session'')]"]
  from a s1 i1 k1 s2 d have A: "perform_retrieve_and_generate stale_session_service [] ?ps
     = (Inr (PDict [(''sessionId'', PStr ''new-session'')], True), [?ps, ?p], ?p)"
    by simp
  from b i1 k2 have B: "perform_retrieve_and_generate (rejecting_service ?stale) [] ?p
     = (Inl ?stale, [?p], ?p)"
    by (simp add: rejecting_service_def)
  from c i2 have C: "perform_retrieve_and_generate (rejecting_service ?busy) [] ?ps
     = (Inl ?busy, [?ps], ?ps)"
    by (simp add: rejecting_service_def)
  from e s3 have E: "perform_retrieve_and_generate stale_session_service [] ?p
     = (Inr (PDict [(''sessionId'', PStr ''new-session'')], False), [?p], ?p)"
    by simp
  from s1 i1 A B C E show ?thesis by simp
qed

text \<open>
  C4 (as amended). On the retry path the \<open>sessionId\<close> is removed from the dictionary
  the caller passed: after the executor has returned or raised there, the caller's
  dictionary has no \<open>sessionId\<close> and is unchanged at every other key. On every other
  path the caller's dictionary is unchanged.
\<close>

theorem params_after_execute:
  "((\<exists>e. service calls params = Inl e \<and> invalid_session e) \<and> ''sessionId'' \<in> fst ` set params \<longrightarrow>
      snd (snd (perform_retrieve_and_generate service calls params)) =
        AList.delete ''sessionId'' params \<and>
      map_of (snd (snd (perform_retrieve_and_generate service calls params))) ''sessionId'' = None \<and>
      (\<forall>k. k \<noteq> ''sessionId'' \<longrightarrow>
         map_of (snd (snd (perform_retrieve_and_generate service calls params))) k = map_of params k)) \<and>
   (\<not> ((\<exists>e. service calls params = Inl e \<and> invalid_session e) \<and> ''sessionId'' \<in> fst ` set params) \<longrightarrow>
      snd (snd (perform_retrieve_and_generate service calls params)) = params)"
  by (auto simp: perform_retrieve_and_generate_def retrieve_and_generate_def delete_conv' Let_def
      split: sum.splits)

theorem params_after_execute_witness:
  "stale_session_service []
       [(''input'', PDict [(''text'', PStr ''q'')]), (''sessionId'', PStr ''abc123'')]
     = Inl (ClientError (Some ''ValidationException'') (Some ''Session with Id abc123 is not valid'')) \<and>
   invalid_session
     (ClientError (Some ''ValidationException'') (Some ''Session with Id abc123 is not valid'')) \<and>
   snd (snd (perform_retrieve_and_generate stale_session_service []
       [(''input'', PDict [(''text'', PStr ''q'')]), (''sessionId'', PStr ''abc123'')]))
     = [(''input'', PDict [(''text'', PStr ''q'')])] \<and>
   snd (snd (perform_retrieve_and_generate stale_session_service []
       [(''input'', PDict [(''text'', PStr ''q'')])]))
     = [(''input'', PDict [(''text'', PStr ''q'')])]"
proof -
  let ?stale = "ClientError (Some ''ValidationException'') (Some ''Session with Id abc123 is not valid'')"
  let ?p = "[(''input'', PDict [(''text'', PStr ''q'')])]"
  let ?ps = "[(''input'', PDict [(''text'', PStr ''q'')]), (''sessionId'', PStr ''abc123'')]"
  have s1: "stale_session_service [] ?ps = Inl ?stale"
    by (simp add: stale_session_service_def)
  have i1: "invalid_session ?stale" by code_simp
  have d: "AList.delete ''sessionId'' ?ps = ?p" by (simp add: AList.delete_eq)
  have k1: "''sessionId'' \<in> fst ` set ?ps" by simp
  have k2: "''sessionId'' \<notin> fst ` set ?p" by simp
  from s1 i1 have ex: "\<exists>e. stale_session_service [] ?ps = Inl e \<and> invalid_session e" by blast
  from params_after_execute [of stale_session_service "[]" ?ps] ex k1 d
  have A: "snd (snd (perform_retrieve_and_generate stale_session_service [] ?ps)) = ?p"
    by simp
  from params_after_execute [of stale_session_service "[]" ?p] k2
  have B: "snd (snd (perform_retrieve_and_generate stale_session_service [] ?p)) = ?p"
    by simp
  from s1 i1 A B show ?thesis by simp
qed

text \<open>
  C4 as stated fails: after a retry the dictionary the caller passed no longer holds
  the \<open>sessionId\<close> it held before the call.
\<close>

theorem C4_counterexample:
  "map_of [(''input'', PDict [(''text'', PStr ''q'')]), (''sessionId'', PStr ''abc123'')] ''sessionId''
     = Some (PStr ''abc123'') \<and>
   perform_retrieve_and_generate stale_session_service []
       [(''input'', PDict [(''text'', PStr ''q'')]), (''sessionId'', PStr ''abc123'')]
     = (Inr (PDict [(''sessionId'', PStr ''new-session'')], True),
        [[(''input'', PDict [(''text'', PStr ''q'')]), (''sessionId'', PStr ''abc123'')],
         [(''input'', PDict [(''text'', PStr ''q'')])]],
        [(''input'', PDict [(''text'', PStr ''q'')])]) \<and>
   map_of (snd (snd (perform_retrieve_and_generate stale_session_service []
       [(''input'', PDict [(''text'', PStr ''q'')]), (''sessionId'', PStr ''abc123'')]))) ''sessionId''
     = None"
  by code_simp

subsection \<open>The wait for the ingestion job\<close>

text \<open>
  C5 (as amended). Let the polls before poll \<open>k\<close> show no final status. If less than
  \<open>max_wait_time\<close> has elapsed when poll \<open>k\<close> is due, then a poll that shows
  \<open>COMPLETE\<close> gives the success response and a poll that shows \<open>FAILED\<close> or \<open>STOPPED\<close>
  gives the failure response that carries the status, after exactly \<open>k + 1\<close> polls. If
  the time elapsed has reached \<open>max_wait_time\<close> when poll \<open>k\<close> is due (it need not
  exceed it), the loop ends after \<open>k\<close> polls with the response for a job still in
  progress, whose status code is 200. Between two polls the loop sleeps 10 time units.
  The handler waits with the limit 300.
\<close>

theorem poll_until_final_or_timeout:
  assumes "\<forall>i<k. \<not> final_status (status i)"
  shows
   "(elapsed_at latency k < max_wait_time \<and> status k = ''COMPLETE'' \<longrightarrow>
       wait_for_job status latency max_wait_time t0 \<lparr>now = t0, polls = 0\<rparr> =
         (\<lparr>statusCode = 200,
           body = Message ''Knowledge base ingestion completed successfully''\<rparr>,
          \<lparr>now = t0 + elapsed_at latency k + int (latency k), polls = Suc k\<rparr>)) \<and>
    (elapsed_at latency k < max_wait_time \<and> (status k = ''FAILED'' \<or> status k = ''STOPPED'') \<longrightarrow>
       wait_for_job status latency max_wait_time t0 \<lparr>now = t0, polls = 0\<rparr> =
         (\<lparr>statusCode = 500,
           body = Error (''Knowledge base ingestion failed with status: '' @ status k)\<rparr>,
          \<lparr>now = t0 + elapsed_at latency k + int (latency k), polls = Suc k\<rparr>)) \<and>
    ((\<forall>i<k. elapsed_at latency i < max_wait_time) \<and> max_wait_time \<le> elapsed_at latency k \<longrightarrow>
       wait_for_job status latency max_wait_time t0 \<lparr>now = t0, polls = 0\<rparr> =
         (\<lparr>statusCode = 200,
           body = Message ''Knowledge base ingestion started but did not complete within timeout''\<rparr>,
          \<lparr>now = t0 + elapsed_at latency k, polls = k\<rparr>)) \<and>
    await_completion status latency \<lparr>now = t0, polls = 0\<rparr> =
      wait_for_job status latency 300 t0 \<lparr>now = t0, polls = 0\<rparr>"
proof -
  let ?wk = "\<lparr>now = t0 + elapsed_at latency k, polls = k\<rparr>"
  have early: "elapsed_at latency k < max_wait_time \<Longrightarrow> \<forall>i<k. elapsed_at latency i < max_wait_time"
    using elapsed_at_mono [of _ k latency] by (meson less_imp_le_nat order_le_less_trans)
  have reach: "\<forall>i<k. elapsed_at latency i < max_wait_time \<Longrightarrow>
      wait_for_job status latency max_wait_time t0 \<lparr>now = t0, polls = 0\<rparr> =
      wait_for_job status latency max_wait_time t0 ?wk"
    by (rule wait_for_job_reaches [OF assms])
  have c: "elapsed_at latency k < max_wait_time \<Longrightarrow> status k = ''COMPLETE'' \<Longrightarrow>
      wait_for_job status latency max_wait_time t0 ?wk =
         (\<lparr>statusCode = 200,
           body = Message ''Knowledge base ingestion completed successfully''\<rparr>,
          \<lparr>now = t0 + elapsed_at latency k + int (latency k), polls = Suc k\<rparr>)"
    by (subst wait_for_job.simps) simp
  have f: "elapsed_at latency k < max_wait_time \<Longrightarrow> status k = ''FAILED'' \<or> status k = ''STOPPED'' \<Longrightarrow>
      wait_for_job status latency max_wait_time t0 ?wk =
         (\<lparr>statusCode = 500,
           body = Error (''Knowledge base ingestion failed with status: '' @ status k)\<rparr>,
          \<lparr>now = t0 + elapsed_at latency k + int (latency k), polls = Suc k\<rparr>)"
    by (subst wait_for_job.simps) auto
  have t: "max_wait_time \<le> elapsed_at latency k \<Longrightarrow>
      wait_for_job status latency max_wait_time t0 ?wk =
         (\<lparr>statusCode = 200,
           body = Message ''Knowledge base ingestion started but did not complete within timeout''\<rparr>,
          ?wk)"
    by (subst wait_for_job.simps) simp
  show ?thesis
    using early reach c f t by (simp add: await_completion_def)
qed

theorem poll_until_final_or_timeout_witness:
  "\<not> final_status (two_then_complete 0) \<and> \<not> final_status (two_then_complete 1) \<and>
   elapsed_at instant 2 < 300 \<and> two_then_complete 2 = ''COMPLETE'' \<and>
   await_completion two_then_complete instant \<lparr>now = 0, polls = 0\<rparr> =
     (\<lparr>statusCode = 200,
       body = Message ''Knowledge base ingestion completed successfully''\<rparr>,
      \<lparr>now = 20, polls = 3\<rparr>) \<and>
   \<not> final_status (two_then_failed 0) \<and> \<not> final_status (two_then_failed 1) \<and>
   two_then_failed 2 = ''FAILED'' \<and>
   await_completion two_then_failed instant \<lparr>now = 0, polls = 0\<rparr> =
     (\<lparr>statusCode = 500,
       body = Error ''Knowledge base ingestion failed with status: FAILED''\<rparr>,
      \<lparr>now = 20, polls = 3\<rparr>) \<and>
   elapsed_at instant 29 < 300 \<and> 300 \<le> elapsed_at instant 30 \<and>
   await_completion never_final instant \<lparr>now = 0, polls = 0\<rparr> =
     (\<lparr>statusCode = 200,
       body = Message ''Knowledge base ingestion started but did not complete within timeout''\<rparr>,
      \<lparr>now = 300, polls = 30\<rparr>)"
proof -
  have h1: "\<forall>i<2. \<not> final_status (two_then_complete i)"
    by (simp add: two_then_complete_def final_status_def)
  have h2: "\<forall>i<2. \<not> final_status (two_then_failed i)"
    by (simp add: two_then_failed_def final_status_def)
  have h3: "\<forall>i<30. \<not> final_status (never_final i)"
    by (simp add: never_final_def final_status_def)
  have e2: "elapsed_at instant 2 < 300" by (simp add: elapsed_at_instant)
  have e30: "\<forall>i<30. elapsed_at instant i < 300" "300 \<le> elapsed_at instant 30"
    by (simp_all add: elapsed_at_instant)
  have s1: "two_then_complete 2 = ''COMPLETE''" by (simp add: two_then_complete_def)
  have s2: "two_then_failed 2 = ''FAILED''" by (simp add: two_then_failed_def)
  from poll_until_final_or_timeout [OF h1, of instant 300 0] e2 s1
  have A: "await_completion two_then_complete instant \<lparr>now = 0, polls = 0\<rparr> =
     (\<lparr>statusCode = 200,
       body = Message ''Knowledge base ingestion completed successfully''\<rparr>,
      \<lparr>now = 20, polls = 3\<rparr>)"
    by (simp add: elapsed_at_instant instant_def)
  from poll_until_final_or_timeout [OF h2, of instant 300 0] e2 s2
  have B: "await_completion two_then_failed instant \<lparr>now = 0, polls = 0\<rparr> =
     (\<lparr>statusCode = 500,
       body = Error ''Knowledge base ingestion failed with status: FAILED''\<rparr>,
      \<lparr>now = 20, polls = 3\<rparr>)"
    by (simp add: elapsed_at_instant instant_def)
  from poll_until_final_or_timeout [OF h3, of instant 300 0] e30
  have C: "await_completion never_final instant \<lparr>now = 0, polls = 0\<rparr> =
     (\<lparr>statusCode = 200,
       body = Message ''Knowledge base ingestion started but did not complete within timeout''\<rparr>,
      \<lparr>now = 300, polls = 30\<rparr>)"
    by (simp add: elapsed_at_instant)
  have n: "\<not> final_status (two_then_complete 0)" "\<not> final_status (two_then_complete 1)"
    "\<not> final_status (two_then_failed 0)" "\<not> final_status (two_then_failed 1)"
    "elapsed_at instant 29 < 300"
    using h1 h2 e30 by simp_all
  from n e2 e30 s1 s2 A B C show ?thesis by blast
qed

text \<open>
  C5 as stated fails: with polls that take no time, 300 time units have elapsed after
  30 polls; that does not exceed the limit of 300, yet the loop ends with the response
  for a job still in progress, and the poll that would show \<open>COMPLETE\<close> is never made.
\<close>

theorem C5_counterexample:
  "await_completion thirty_then_complete instant \<lparr>now = 0, polls = 0\<rparr> =
     (\<lparr>statusCode = 200,
       body = Message ''Knowledge base ingestion started but did not complete within timeout''\<rparr>,
      \<lparr>now = 300, polls = 30\<rparr>) \<and>
   \<not> 300 < now (snd (await_completion thirty_then_complete instant \<lparr>now = 0, polls = 0\<rparr>)) - 0 \<and>
   thirty_then_complete 30 = ''COMPLETE''"
  by code_simp

end
